theory Spec2Isabelle
  imports Main
begin

section \<open>The page: document, store, live region and timers\<close>

text \<open>
  The script \<^verbatim>\<open>script.js\<close> works on four pieces of browser state: the class list of
  the document root, the attributes of the elements it looks up by id, the per-origin
  \<^verbatim>\<open>localStorage\<close>, and the text of the live region it creates. Its two asynchronous
  parts (the clearing of the live region and the debounced resize listener) use
  \<^verbatim>\<open>setTimeout\<close>, so the state also carries a clock in milliseconds and the list of
  pending timers, in creation order.

  An element is its attribute map; \<^verbatim>\<open>getAttribute\<close> of a missing attribute is
  \<^verbatim>\<open>null\<close>, here \<open>None\<close>. The record describes the page once the live region
  exists (line 70 of the script): the listeners that call the toggles are registered in
  the same handler and can only run after it.
\<close>

type_synonym element = "string \<rightharpoonup> string"

datatype timer_action = ClearLiveRegion | CallResizeHandler

record timer =
  timerId :: nat
  due :: nat
  action :: timer_action

record page =
  rootClasses :: "string list"
  elements :: "string \<rightharpoonup> element"
  localStorage :: "string \<rightharpoonup> string"
  liveRegion :: string
  timers :: "timer list"
  nextTimerId :: nat
  now :: nat
  timeout :: "nat option"
  resizeCalls :: "nat list"

text \<open>
  A call on \<^verbatim>\<open>null\<close> raises a \<^verbatim>\<open>TypeError\<close>. The statements executed before the
  raise keep their effect, so a thrown outcome carries the page as it is at that point.
\<close>

datatype js_error = TypeError

datatype outcome = Done page | Threw js_error page

fun pageOf :: "outcome \<Rightarrow> page" where
  "pageOf (Done s) = s"
| "pageOf (Threw e s) = s"

fun isDone :: "outcome \<Rightarrow> bool" where
  "isDone (Done s) = True"
| "isDone (Threw e s) = False"

subsection \<open>DOM and storage primitives\<close>

text \<open>
  \<^verbatim>\<open>classList\<close> is an ordered set of tokens: \<^verbatim>\<open>add\<close> appends a token that is not
  there yet, \<^verbatim>\<open>remove\<close> deletes it.
\<close>

definition classList_add :: "string \<Rightarrow> string list \<Rightarrow> string list" where
  "classList_add c cs = (if c \<in> set cs then cs else cs @ [c])"

definition classList_remove :: "string \<Rightarrow> string list \<Rightarrow> string list" where
  "classList_remove c cs = removeAll c cs"

definition getElementById :: "string \<Rightarrow> page \<Rightarrow> element option" where
  "getElementById i s = elements s i"

definition getAttribute :: "string \<Rightarrow> element \<Rightarrow> string option" where
  "getAttribute n el = el n"

text \<open>\<^verbatim>\<open>el.setAttribute(n, v)\<close> on the element with id \<open>i\<close>, whose attributes are \<open>el\<close>.\<close>

definition setAttribute :: "string \<Rightarrow> element \<Rightarrow> string \<Rightarrow> string \<Rightarrow> page \<Rightarrow> page" where
  "setAttribute i el n v s = s\<lparr>elements := (elements s)(i \<mapsto> el(n \<mapsto> v))\<rparr>"

definition getItem :: "string \<Rightarrow> page \<Rightarrow> string option" where
  "getItem k s = localStorage s k"

text \<open>
  \<^verbatim>\<open>localStorage.setItem(k, b)\<close> with a boolean \<open>b\<close> stores its string conversion,
  \<^verbatim>\<open>"true"\<close> or \<^verbatim>\<open>"false"\<close>. The store is taken to be available: the script has no
  handler for a \<^verbatim>\<open>getItem\<close> or \<^verbatim>\<open>setItem\<close> that throws.
\<close>

definition jsString :: "bool \<Rightarrow> string" where
  "jsString b = (if b then ''true'' else ''false'')"

definition setItem :: "string \<Rightarrow> bool \<Rightarrow> page \<Rightarrow> page" where
  "setItem k b s = s\<lparr>localStorage := (localStorage s)(k \<mapsto> jsString b)\<rparr>"

subsection \<open>Timers\<close>

text \<open>
  \<^verbatim>\<open>setTimeout(f, delay)\<close> registers a timer due \<open>delay\<close> milliseconds from now and
  returns its handle; \<^verbatim>\<open>clearTimeout(h)\<close> drops the timer with that handle and does
  nothing for \<^verbatim>\<open>undefined\<close> or for a timer that has already fired.
\<close>

definition setTimeout :: "timer_action \<Rightarrow> nat \<Rightarrow> page \<Rightarrow> nat \<times> page" where
  "setTimeout f delay s =
     (nextTimerId s,
      s\<lparr>timers := timers s @ [\<lparr>timerId = nextTimerId s, due = now s + delay, action = f\<rparr>],
        nextTimerId := Suc (nextTimerId s)\<rparr>)"

definition clearTimeout :: "nat option \<Rightarrow> page \<Rightarrow> page" where
  "clearTimeout h s =
     (case h of
        None \<Rightarrow> s
      | Some i \<Rightarrow> s\<lparr>timers := filter (\<lambda>t. timerId t \<noteq> i) (timers s)\<rparr>)"

text \<open>
  What a timer does when it fires. The arrow function of \<^verbatim>\<open>announceToScreenReader\<close>
  empties the live region. The one of \<^verbatim>\<open>debounce\<close> calls the resize handler, whose
  body is empty in the source: the model records the time of each call in
  \<open>resizeCalls\<close>, so that the calls can be counted.
\<close>

definition fire :: "timer \<Rightarrow> page \<Rightarrow> page" where
  "fire t s =
     (case action t of
        ClearLiveRegion \<Rightarrow> s\<lparr>liveRegion := ''''\<rparr>
      | CallResizeHandler \<Rightarrow> s\<lparr>resizeCalls := resizeCalls s @ [now s]\<rparr>)"

text \<open>The pending timer that fires next: the least due time, the oldest among equals.\<close>

fun earliest :: "timer list \<Rightarrow> timer option" where
  "earliest [] = None"
| "earliest (t # ts) =
     (case earliest ts of
        None \<Rightarrow> Some t
      | Some u \<Rightarrow> if due u < due t then Some u else Some t)"

lemma earliest_mem: "earliest ts = Some t \<Longrightarrow> t \<in> set ts"
  by (induction ts arbitrary: t) (auto split: option.splits if_splits)

lemma earliest_least: "earliest ts = Some t \<Longrightarrow> u \<in> set ts \<Longrightarrow> due t \<le> due u"
proof (induction ts arbitrary: t)
  case Nil
  then show ?case by simp
next
  case (Cons a ts)
  show ?case
  proof (cases "earliest ts")
    case None
    then have "ts = []" by (cases ts) (auto split: option.splits if_splits)
    with Cons.prems None show ?thesis by simp
  next
    case (Some v)
    with Cons show ?thesis by (fastforce split: if_splits)
  qed
qed

lemma fire_timers [simp]: "timers (fire t s) = timers s"
  by (simp add: fire_def split: timer_action.splits)

text \<open>
  The event loop up to the time \<open>target\<close>: the timers due by then fire one after the
  other, each at its due time, and the clock ends at \<open>target\<close>.
\<close>

function runTimers :: "nat \<Rightarrow> page \<Rightarrow> page" where
  "runTimers target s =
     (case earliest (timers s) of
        None \<Rightarrow> s\<lparr>now := max (now s) target\<rparr>
      | Some t \<Rightarrow>
          if due t \<le> target
          then runTimers target (fire t (s\<lparr>timers := remove1 t (timers s), now := max (now s) (due t)\<rparr>))
          else s\<lparr>now := max (now s) target\<rparr>)"
  by pat_completeness auto
termination
proof (relation "measure (\<lambda>(target, s). length (timers s))")
  show "wf (measure (\<lambda>(target, s). length (timers s)))" by simp
next
  fix target :: nat and s :: page and t :: timer
  assume e: "earliest (timers s) = Some t"
  have m: "t \<in> set (timers s)" using e by (rule earliest_mem)
  then have "0 < length (timers s)" by (rule length_pos_if_in_set)
  with m have "length (remove1 t (timers s)) < length (timers s)"
    by (simp add: length_remove1)
  then show "((target, fire t (s\<lparr>timers := remove1 t (timers s), now := max (now s) (due t)\<rparr>)), (target, s))
      \<in> measure (\<lambda>(target, s). length (timers s))"
    by simp
qed

declare runTimers.simps [simp del]

definition advance :: "nat \<Rightarrow> page \<Rightarrow> page" where
  "advance d s = runTimers (now s + d) s"

section \<open>The functions of the script\<close>

subsection \<open>Announcements (lines 73 to 79)\<close>

text \<open>
  \<^verbatim>\<open>
  window.announceToScreenReader = function(message) {
      liveRegion.textContent = message;
      setTimeout(() => { liveRegion.textContent = ''; }, 100);
  };
  \<close>
  The handle that \<^verbatim>\<open>setTimeout\<close> returns is dropped: no call of \<^verbatim>\<open>clearTimeout\<close>
  ever names a clearing timer.
\<close>

definition announceToScreenReader :: "string \<Rightarrow> page \<Rightarrow> page" where
  "announceToScreenReader message s =
     snd (setTimeout ClearLiveRegion 100 (s\<lparr>liveRegion := message\<rparr>))"

subsection \<open>The two toggles (lines 88 to 125)\<close>

text \<open>
  \<^verbatim>\<open>
  function toggleHighContrast() {
      const highContrastBtn = document.getElementById('high-contrast');
      const isPressed = highContrastBtn.getAttribute('aria-pressed') === 'true';
      if (isPressed) {
          document.documentElement.classList.remove('high-contrast');
          highContrastBtn.setAttribute('aria-pressed', 'false');
          announceToScreenReader('High contrast mode turned off');
      } else {
          document.documentElement.classList.add('high-contrast');
          highContrastBtn.setAttribute('aria-pressed', 'true');
          announceToScreenReader('High contrast mode turned on');
      }
      localStorage.setItem('highContrast', !isPressed);
  }
  \<close>
  Without the control, \<^verbatim>\<open>getAttribute\<close> is called on \<^verbatim>\<open>null\<close> and the function
  throws before it has changed anything.
\<close>

definition toggleHighContrast :: "page \<Rightarrow> outcome" where
  "toggleHighContrast s =
     (case getElementById ''high-contrast'' s of
        None \<Rightarrow> Threw TypeError s
      | Some highContrastBtn \<Rightarrow>
          let isPressed = (getAttribute ''aria-pressed'' highContrastBtn = Some ''true'');
              s1 = (if isPressed
                    then announceToScreenReader ''High contrast mode turned off''
                           (setAttribute ''high-contrast'' highContrastBtn ''aria-pressed'' ''false''
                             (s\<lparr>rootClasses := classList_remove ''high-contrast'' (rootClasses s)\<rparr>))
                    else announceToScreenReader ''High contrast mode turned on''
                           (setAttribute ''high-contrast'' highContrastBtn ''aria-pressed'' ''true''
                             (s\<lparr>rootClasses := classList_add ''high-contrast'' (rootClasses s)\<rparr>)))
          in Done (setItem ''highContrast'' (\<not> isPressed) s1))"

definition toggleFontSize :: "page \<Rightarrow> outcome" where
  "toggleFontSize s =
     (case getElementById ''font-size'' s of
        None \<Rightarrow> Threw TypeError s
      | Some fontSizeBtn \<Rightarrow>
          let isPressed = (getAttribute ''aria-pressed'' fontSizeBtn = Some ''true'');
              s1 = (if isPressed
                    then announceToScreenReader ''Large text mode turned off''
                           (setAttribute ''font-size'' fontSizeBtn ''aria-pressed'' ''false''
                             (s\<lparr>rootClasses := classList_remove ''large-text'' (rootClasses s)\<rparr>))
                    else announceToScreenReader ''Large text mode turned on''
                           (setAttribute ''font-size'' fontSizeBtn ''aria-pressed'' ''true''
                             (s\<lparr>rootClasses := classList_add ''large-text'' (rootClasses s)\<rparr>)))
          in Done (setItem ''largeText'' (\<not> isPressed) s1))"

subsection \<open>Restoring the preferences at page load (lines 130 to 159)\<close>

text \<open>
  \<^verbatim>\<open>
  function initAccessibilityFeatures() {
      if (localStorage.getItem('highContrast') === 'true') {
          document.documentElement.classList.add('high-contrast');
          document.getElementById('high-contrast').setAttribute('aria-pressed', 'true');
      }
      if (localStorage.getItem('largeText') === 'true') {
          document.documentElement.classList.add('large-text');
          document.getElementById('font-size').setAttribute('aria-pressed', 'true');
      }
      document.documentElement.classList.add('js-focus-visible');
      ...
  }
  \<close>
  Neither branch has an \<^verbatim>\<open>else\<close>: a stored value other than \<^verbatim>\<open>"true"\<close> leaves the
  document as the markup made it. A stored \<^verbatim>\<open>"true"\<close> without the control throws
  after the class has been added. The rest of the function registers the focus and blur
  listeners of the skip link and calls the empty \<^verbatim>\<open>setupFocusTrap\<close>; neither changes
  the state modelled here. \<open>restorePreference\<close> is one of the two \<^verbatim>\<open>if\<close> statements,
  with its key, its marker class and the id of its control.
\<close>

definition restorePreference :: "string \<Rightarrow> string \<Rightarrow> string \<Rightarrow> page \<Rightarrow> outcome" where
  "restorePreference key marker ctl s =
     (if getItem key s = Some ''true''
      then (let s1 = s\<lparr>rootClasses := classList_add marker (rootClasses s)\<rparr>
            in case getElementById ctl s1 of
                 None \<Rightarrow> Threw TypeError s1
               | Some btn \<Rightarrow> Done (setAttribute ctl btn ''aria-pressed'' ''true'' s1))
      else Done s)"

definition initAccessibilityFeatures :: "page \<Rightarrow> outcome" where
  "initAccessibilityFeatures s =
     (case restorePreference ''highContrast'' ''high-contrast'' ''high-contrast'' s of
        Threw e s1 \<Rightarrow> Threw e s1
      | Done s1 \<Rightarrow>
          (case restorePreference ''largeText'' ''large-text'' ''font-size'' s1 of
             Threw e s2 \<Rightarrow> Threw e s2
           | Done s2 \<Rightarrow>
               Done (s2\<lparr>rootClasses := classList_add ''js-focus-visible'' (rootClasses s2)\<rparr>)))"

subsection \<open>The debounced resize listener (lines 172 to 187)\<close>

text \<open>
  \<^verbatim>\<open>
  function debounce(func, wait) {
      let timeout;
      return function() {
          clearTimeout(timeout);
          timeout = setTimeout(() => { func.apply(context, args); }, wait);
      };
  }
  window.addEventListener('resize', debounce(function() { }, 250));
  \<close>
  \<open>debounce func wait\<close> is one call of the returned function. The script calls
  \<^verbatim>\<open>debounce\<close> once, so there is one closure variable \<^verbatim>\<open>timeout\<close>, the field
  \<open>timeout\<close> of the page, \<^verbatim>\<open>undefined\<close> (\<open>None\<close>) until the first resize event.
\<close>

definition debounce :: "timer_action \<Rightarrow> nat \<Rightarrow> page \<Rightarrow> page" where
  "debounce func wait s =
     (let s1 = clearTimeout (timeout s) s;
          (h, s2) = setTimeout func wait s1
      in s2\<lparr>timeout := Some h\<rparr>)"

definition onResize :: "page \<Rightarrow> page" where
  "onResize s = debounce CallResizeHandler 250 s"

subsection \<open>The image descriptions (lines 40 to 42)\<close>

text \<open>
  \<^verbatim>\<open>
  document.querySelectorAll('img:not([alt])').forEach(img => {
      img.setAttribute('alt', 'Decorative image');
  });
  \<close>
  The selector matches the images that have no \<^verbatim>\<open>alt\<close> attribute at all; an empty
  \<^verbatim>\<open>alt=""\<close> is an attribute and does not match. The images are the document's
  \<^verbatim>\<open>img\<close> elements in document order.
\<close>

definition backfillAlt :: "element list \<Rightarrow> element list" where
  "backfillAlt imgs =
     map (\<lambda>img. if getAttribute ''alt'' img = None then img(''alt'' \<mapsto> ''Decorative image'') else img) imgs"

subsection \<open>Events\<close>

text \<open>
  What can happen to a loaded page: a click on a control, a key pressed on it (lines 11 to
  16 and 23 to 28: only Enter and the space bar toggle, and the default action is
  prevented), a resize event, and time passing. An exception ends the handler that raised
  it and leaves the page as it was at the raise.
\<close>

datatype event =
    ClickHighContrast
  | KeydownHighContrast string
  | ClickFontSize
  | KeydownFontSize string
  | Resize
  | Elapse nat

fun step :: "event \<Rightarrow> page \<Rightarrow> page" where
  "step ClickHighContrast s = pageOf (toggleHighContrast s)"
| "step (KeydownHighContrast k) s =
     (if k = ''Enter'' \<or> k = '' '' then pageOf (toggleHighContrast s) else s)"
| "step ClickFontSize s = pageOf (toggleFontSize s)"
| "step (KeydownFontSize k) s =
     (if k = ''Enter'' \<or> k = '' '' then pageOf (toggleFontSize s) else s)"
| "step Resize s = onResize s"
| "step (Elapse d) s = advance d s"

fun run :: "event list \<Rightarrow> page \<Rightarrow> page" where
  "run [] s = s"
| "run (e # es) s = run es (step e s)"

text \<open>
  A burst of resize events: the first one now, each further one \<open>g\<close> milliseconds
  after the one before it, for the gaps \<open>g\<close> of the list.
\<close>

fun burst :: "nat list \<Rightarrow> event list" where
  "burst [] = [Resize]"
| "burst (g # gs) = Resize # Elapse g # burst gs"

section \<open>Reading the state of a preference\<close>

text \<open>
  A preference shows in three places: the marker class on the document root, the
  \<^verbatim>\<open>aria-pressed\<close> attribute of its control, and the value stored under its key. The
  script itself reads the indicator as \<^verbatim>\<open>getAttribute('aria-pressed') === 'true'\<close> and
  the store as \<^verbatim>\<open>getItem(key) === 'true'\<close>; the observers below read them the same
  way. \<open>agree\<close> says that the three are all on or all off.

  The HTML page is not among the sources, so the document the script starts from is a
  parameter. \<open>hasControl\<close> says that the page has the control (the script assumes both
  are there when it restores a stored \<^verbatim>\<open>"true"\<close>), and \<open>markupOff\<close> that the markup
  itself leaves a preference off: no marker class on the root, the control not pressed.
\<close>

definition markerPresent :: "string \<Rightarrow> page \<Rightarrow> bool" where
  "markerPresent c s = (c \<in> set (rootClasses s))"

definition ariaPressed :: "string \<Rightarrow> page \<Rightarrow> string option" where
  "ariaPressed ctl s =
     (case getElementById ctl s of None \<Rightarrow> None | Some el \<Rightarrow> getAttribute ''aria-pressed'' el)"

definition indicatorPressed :: "string \<Rightarrow> page \<Rightarrow> bool" where
  "indicatorPressed ctl s = (ariaPressed ctl s = Some ''true'')"

definition storedOn :: "string \<Rightarrow> page \<Rightarrow> bool" where
  "storedOn k s = (getItem k s = Some ''true'')"

definition agree :: "string \<Rightarrow> string \<Rightarrow> string \<Rightarrow> page \<Rightarrow> bool" where
  "agree marker ctl key s =
     ((markerPresent marker s \<and> indicatorPressed ctl s \<and> storedOn key s) \<or>
      (\<not> markerPresent marker s \<and> \<not> indicatorPressed ctl s \<and> \<not> storedOn key s))"

definition hasControl :: "string \<Rightarrow> page \<Rightarrow> bool" where
  "hasControl ctl s = (getElementById ctl s \<noteq> None)"

definition markupOff :: "string \<Rightarrow> string \<Rightarrow> page \<Rightarrow> bool" where
  "markupOff marker ctl s = (\<not> markerPresent marker s \<and> \<not> indicatorPressed ctl s)"

text \<open>
  Both controls are on the page and both preferences agree.
\<close>

definition consistent :: "page \<Rightarrow> bool" where
  "consistent s =
     (hasControl ''high-contrast'' s \<and> hasControl ''font-size'' s \<and>
      agree ''high-contrast'' ''high-contrast'' ''highContrast'' s \<and>
      agree ''large-text'' ''font-size'' ''largeText'' s)"

text \<open>The document and the store as the observers read them.\<close>

definition sameDocument :: "page \<Rightarrow> page \<Rightarrow> bool" where
  "sameDocument s' s =
     (rootClasses s' = rootClasses s \<and> elements s' = elements s \<and> localStorage s' = localStorage s)"

subsection \<open>Pending resize timers\<close>

text \<open>
  The timers that will call the resize handler. In every state the script can reach,
  such a timer is the one whose handle the closure variable \<^verbatim>\<open>timeout\<close> holds: only
  \<open>debounce\<close> creates them, and it stores the handle of each.
\<close>

definition pendingResize :: "page \<Rightarrow> timer list" where
  "pendingResize s = filter (\<lambda>t. action t = CallResizeHandler) (timers s)"

definition debounceInv :: "page \<Rightarrow> bool" where
  "debounceInv s = (\<forall>t\<in>set (timers s). action t = CallResizeHandler \<longrightarrow> timeout s = Some (timerId t))"

subsection \<open>Example pages\<close>

text \<open>
  A page on a first visit: both controls in the markup, not pressed, nothing stored, no
  timer pending.
\<close>

definition firstVisit :: page where
  "firstVisit =
     \<lparr>rootClasses = [],
      elements = [''high-contrast'' \<mapsto> [''aria-pressed'' \<mapsto> ''false''],
                  ''font-size'' \<mapsto> [''aria-pressed'' \<mapsto> ''false'']],
      localStorage = Map.empty,
      liveRegion = '''',
      timers = [],
      nextTimerId = 1,
      now = 0,
      timeout = None,
      resizeCalls = []\<rparr>"

text \<open>
  A returning visitor: \<^verbatim>\<open>"true"\<close> stored for high contrast, \<^verbatim>\<open>"false"\<close> for large
  text, and a root that already carries a class of its own.
\<close>

definition returningVisit :: page where
  "returningVisit =
     \<lparr>rootClasses = [''no-js''],
      elements = [''high-contrast'' \<mapsto> [''aria-pressed'' \<mapsto> ''false''],
                  ''font-size'' \<mapsto> [''aria-pressed'' \<mapsto> ''false'']],
      localStorage = [''highContrast'' \<mapsto> ''true'', ''largeText'' \<mapsto> ''false''],
      liveRegion = '''',
      timers = [],
      nextTimerId = 1,
      now = 0,
      timeout = None,
      resizeCalls = []\<rparr>"

text \<open>The first-visit markup with the store \<open>st\<close>.\<close>

definition storedPage :: "(string \<rightharpoonup> string) \<Rightarrow> page" where
  "storedPage st = firstVisit\<lparr>localStorage := st\<rparr>"

text \<open>
  A visit with high contrast on: the page as restoration leaves it when \<^verbatim>\<open>"true"\<close> is
  stored under \<^verbatim>\<open>highContrast\<close>.
\<close>

definition contrastOn :: page where
  "contrastOn =
     \<lparr>rootClasses = [''high-contrast'', ''js-focus-visible''],
      elements = [''high-contrast'' \<mapsto> [''aria-pressed'' \<mapsto> ''true''],
                  ''font-size'' \<mapsto> [''aria-pressed'' \<mapsto> ''false'']],
      localStorage = [''highContrast'' \<mapsto> ''true''],
      liveRegion = '''',
      timers = [],
      nextTimerId = 1,
      now = 0,
      timeout = None,
      resizeCalls = []\<rparr>"

text \<open>
  The first-visit page some time after it was loaded.
\<close>

definition quietPage :: page where
  "quietPage = firstVisit\<lparr>now := 1000, nextTimerId := 7\<rparr>"

text \<open>
  Three images: one without \<^verbatim>\<open>alt\<close>, one with an empty \<^verbatim>\<open>alt\<close>, one with a
  description.
\<close>

definition pageImages :: "element list" where
  "pageImages =
     [[''src'' \<mapsto> ''soup.jpg''],
      [''src'' \<mapsto> ''rule.png'', ''alt'' \<mapsto> ''''],
      [''src'' \<mapsto> ''bread.jpg'', ''alt'' \<mapsto> ''A loaf of bread'']]"

section \<open>What the toggles and the restoration do\<close>

lemmas observer_defs =
  markerPresent_def ariaPressed_def indicatorPressed_def storedOn_def agree_def hasControl_def
  markupOff_def

lemma toggleHighContrast_on:
  "getElementById ''high-contrast'' s = Some b \<Longrightarrow> getAttribute ''aria-pressed'' b \<noteq> Some ''true'' \<Longrightarrow>
   toggleHighContrast s = Done (s\<lparr>
     rootClasses := classList_add ''high-contrast'' (rootClasses s),
     elements := (elements s)(''high-contrast'' \<mapsto> b(''aria-pressed'' \<mapsto> ''true'')),
     localStorage := (localStorage s)(''highContrast'' \<mapsto> ''true''),
     liveRegion := ''High contrast mode turned on'',
     timers := timers s @ [\<lparr>timerId = nextTimerId s, due = now s + 100, action = ClearLiveRegion\<rparr>],
     nextTimerId := Suc (nextTimerId s)\<rparr>)"
  by (simp add: toggleHighContrast_def announceToScreenReader_def setTimeout_def
      setAttribute_def setItem_def jsString_def)

lemma toggleHighContrast_off:
  "getElementById ''high-contrast'' s = Some b \<Longrightarrow> getAttribute ''aria-pressed'' b = Some ''true'' \<Longrightarrow>
   toggleHighContrast s = Done (s\<lparr>
     rootClasses := classList_remove ''high-contrast'' (rootClasses s),
     elements := (elements s)(''high-contrast'' \<mapsto> b(''aria-pressed'' \<mapsto> ''false'')),
     localStorage := (localStorage s)(''highContrast'' \<mapsto> ''false''),
     liveRegion := ''High contrast mode turned off'',
     timers := timers s @ [\<lparr>timerId = nextTimerId s, due = now s + 100, action = ClearLiveRegion\<rparr>],
     nextTimerId := Suc (nextTimerId s)\<rparr>)"
  by (simp add: toggleHighContrast_def announceToScreenReader_def setTimeout_def
      setAttribute_def setItem_def jsString_def)

lemma toggleFontSize_on:
  "getElementById ''font-size'' s = Some b \<Longrightarrow> getAttribute ''aria-pressed'' b \<noteq> Some ''true'' \<Longrightarrow>
   toggleFontSize s = Done (s\<lparr>
     rootClasses := classList_add ''large-text'' (rootClasses s),
     elements := (elements s)(''font-size'' \<mapsto> b(''aria-pressed'' \<mapsto> ''true'')),
     localStorage := (localStorage s)(''largeText'' \<mapsto> ''true''),
     liveRegion := ''Large text mode turned on'',
     timers := timers s @ [\<lparr>timerId = nextTimerId s, due = now s + 100, action = ClearLiveRegion\<rparr>],
     nextTimerId := Suc (nextTimerId s)\<rparr>)"
  by (simp add: toggleFontSize_def announceToScreenReader_def setTimeout_def
      setAttribute_def setItem_def jsString_def)

lemma toggleFontSize_off:
  "getElementById ''font-size'' s = Some b \<Longrightarrow> getAttribute ''aria-pressed'' b = Some ''true'' \<Longrightarrow>
   toggleFontSize s = Done (s\<lparr>
     rootClasses := classList_remove ''large-text'' (rootClasses s),
     elements := (elements s)(''font-size'' \<mapsto> b(''aria-pressed'' \<mapsto> ''false'')),
     localStorage := (localStorage s)(''largeText'' \<mapsto> ''false''),
     liveRegion := ''Large text mode turned off'',
     timers := timers s @ [\<lparr>timerId = nextTimerId s, due = now s + 100, action = ClearLiveRegion\<rparr>],
     nextTimerId := Suc (nextTimerId s)\<rparr>)"
  by (simp add: toggleFontSize_def announceToScreenReader_def setTimeout_def
      setAttribute_def setItem_def jsString_def)

lemma toggleHighContrast_missing:
  "getElementById ''high-contrast'' s = None \<Longrightarrow> toggleHighContrast s = Threw TypeError s"
  by (simp add: toggleHighContrast_def)

lemma toggleFontSize_missing:
  "getElementById ''font-size'' s = None \<Longrightarrow> toggleFontSize s = Threw TypeError s"
  by (simp add: toggleFontSize_def)

lemma toggleHighContrast_agree:
  assumes "hasControl ''high-contrast'' s"
  shows "isDone (toggleHighContrast s) \<and>
   agree ''high-contrast'' ''high-contrast'' ''highContrast'' (pageOf (toggleHighContrast s))"
proof -
  from assms obtain b where b: "getElementById ''high-contrast'' s = Some b"
    by (auto simp: hasControl_def)
  show ?thesis
  proof (cases "getAttribute ''aria-pressed'' b = Some ''true''")
    case True
    show ?thesis
      by (simp add: toggleHighContrast_off [OF b True] observer_defs getElementById_def
          getAttribute_def getItem_def classList_remove_def)
  next
    case False
    show ?thesis
      by (simp add: toggleHighContrast_on [OF b False] observer_defs getElementById_def
          getAttribute_def getItem_def classList_add_def)
  qed
qed

lemma toggleFontSize_agree:
  assumes "hasControl ''font-size'' s"
  shows "isDone (toggleFontSize s) \<and>
   agree ''large-text'' ''font-size'' ''largeText'' (pageOf (toggleFontSize s))"
proof -
  from assms obtain b where b: "getElementById ''font-size'' s = Some b"
    by (auto simp: hasControl_def)
  show ?thesis
  proof (cases "getAttribute ''aria-pressed'' b = Some ''true''")
    case True
    show ?thesis
      by (simp add: toggleFontSize_off [OF b True] observer_defs getElementById_def
          getAttribute_def getItem_def classList_remove_def)
  next
    case False
    show ?thesis
      by (simp add: toggleFontSize_on [OF b False] observer_defs getElementById_def
          getAttribute_def getItem_def classList_add_def)
  qed
qed

lemma restorePreference_on:
  "getItem key s = Some ''true'' \<Longrightarrow> getElementById ctl s = Some b \<Longrightarrow>
   restorePreference key marker ctl s = Done (s\<lparr>
     rootClasses := classList_add marker (rootClasses s),
     elements := (elements s)(ctl \<mapsto> b(''aria-pressed'' \<mapsto> ''true''))\<rparr>)"
  by (simp add: restorePreference_def getElementById_def setAttribute_def)

lemma restorePreference_missing:
  "getItem key s = Some ''true'' \<Longrightarrow> getElementById ctl s = None \<Longrightarrow>
   restorePreference key marker ctl s = Threw TypeError (s\<lparr>
     rootClasses := classList_add marker (rootClasses s)\<rparr>)"
  by (simp add: restorePreference_def getElementById_def)

lemma restorePreference_other:
  "getItem key s \<noteq> Some ''true'' \<Longrightarrow> restorePreference key marker ctl s = Done s"
  by (simp add: restorePreference_def)

lemma toggleHighContrast_frame:
  "(c \<noteq> ''high-contrast'' \<longrightarrow> markerPresent c (pageOf (toggleHighContrast s)) = markerPresent c s) \<and>
   (i \<noteq> ''high-contrast'' \<longrightarrow> getElementById i (pageOf (toggleHighContrast s)) = getElementById i s) \<and>
   (k \<noteq> ''highContrast'' \<longrightarrow> getItem k (pageOf (toggleHighContrast s)) = getItem k s)"
proof (cases "getElementById ''high-contrast'' s")
  case None
  then show ?thesis by (simp add: toggleHighContrast_missing)
next
  case (Some b)
  show ?thesis
  proof (cases "getAttribute ''aria-pressed'' b = Some ''true''")
    case True
    show ?thesis
      by (simp add: toggleHighContrast_off [OF Some True] markerPresent_def getElementById_def
          getItem_def classList_remove_def)
  next
    case False
    show ?thesis
      by (simp add: toggleHighContrast_on [OF Some False] markerPresent_def getElementById_def
          getItem_def classList_add_def)
  qed
qed

lemma toggleFontSize_frame:
  "(c \<noteq> ''large-text'' \<longrightarrow> markerPresent c (pageOf (toggleFontSize s)) = markerPresent c s) \<and>
   (i \<noteq> ''font-size'' \<longrightarrow> getElementById i (pageOf (toggleFontSize s)) = getElementById i s) \<and>
   (k \<noteq> ''largeText'' \<longrightarrow> getItem k (pageOf (toggleFontSize s)) = getItem k s)"
proof (cases "getElementById ''font-size'' s")
  case None
  then show ?thesis by (simp add: toggleFontSize_missing)
next
  case (Some b)
  show ?thesis
  proof (cases "getAttribute ''aria-pressed'' b = Some ''true''")
    case True
    show ?thesis
      by (simp add: toggleFontSize_off [OF Some True] markerPresent_def getElementById_def
          getItem_def classList_remove_def)
  next
    case False
    show ?thesis
      by (simp add: toggleFontSize_on [OF Some False] markerPresent_def getElementById_def
          getItem_def classList_add_def)
  qed
qed

lemma toggleHighContrast_hasControl:
  "hasControl i (pageOf (toggleHighContrast s)) = hasControl i s"
proof (cases "getElementById ''high-contrast'' s")
  case None
  then show ?thesis by (simp add: toggleHighContrast_missing)
next
  case (Some b)
  show ?thesis
  proof (cases "getAttribute ''aria-pressed'' b = Some ''true''")
    case True
    show ?thesis using Some
      by (simp add: toggleHighContrast_off [OF Some True] hasControl_def getElementById_def)
  next
    case False
    show ?thesis using Some
      by (simp add: toggleHighContrast_on [OF Some False] hasControl_def getElementById_def)
  qed
qed

lemma toggleFontSize_hasControl:
  "hasControl i (pageOf (toggleFontSize s)) = hasControl i s"
proof (cases "getElementById ''font-size'' s")
  case None
  then show ?thesis by (simp add: toggleFontSize_missing)
next
  case (Some b)
  show ?thesis
  proof (cases "getAttribute ''aria-pressed'' b = Some ''true''")
    case True
    show ?thesis using Some
      by (simp add: toggleFontSize_off [OF Some True] hasControl_def getElementById_def)
  next
    case False
    show ?thesis using Some
      by (simp add: toggleFontSize_on [OF Some False] hasControl_def getElementById_def)
  qed
qed

lemma toggleHighContrast_consistent:
  assumes "consistent s"
  shows "consistent (pageOf (toggleHighContrast s))"
proof -
  have a: "agree ''high-contrast'' ''high-contrast'' ''highContrast'' (pageOf (toggleHighContrast s))"
    using assms toggleHighContrast_agree [of s] by (simp add: consistent_def)
  have f: "agree ''large-text'' ''font-size'' ''largeText'' (pageOf (toggleHighContrast s))
        = agree ''large-text'' ''font-size'' ''largeText'' s"
    using toggleHighContrast_frame [of "''large-text''" s "''font-size''" "''largeText''"]
    by (simp add: agree_def indicatorPressed_def ariaPressed_def storedOn_def)
  show ?thesis using assms a f by (simp add: consistent_def toggleHighContrast_hasControl)
qed

lemma toggleFontSize_consistent:
  assumes "consistent s"
  shows "consistent (pageOf (toggleFontSize s))"
proof -
  have a: "agree ''large-text'' ''font-size'' ''largeText'' (pageOf (toggleFontSize s))"
    using assms toggleFontSize_agree [of s] by (simp add: consistent_def)
  have f: "agree ''high-contrast'' ''high-contrast'' ''highContrast'' (pageOf (toggleFontSize s))
        = agree ''high-contrast'' ''high-contrast'' ''highContrast'' s"
    using toggleFontSize_frame [of "''high-contrast''" s "''high-contrast''" "''highContrast''"]
    by (simp add: agree_def indicatorPressed_def ariaPressed_def storedOn_def)
  show ?thesis using assms a f by (simp add: consistent_def toggleFontSize_hasControl)
qed

text \<open>Turning a preference off.\<close>

lemma toggleHighContrast_pressed:
  assumes "indicatorPressed ''high-contrast'' s"
  shows "isDone (toggleHighContrast s) \<and>
     \<not> markerPresent ''high-contrast'' (pageOf (toggleHighContrast s)) \<and>
     ariaPressed ''high-contrast'' (pageOf (toggleHighContrast s)) = Some ''false'' \<and>
     getItem ''highContrast'' (pageOf (toggleHighContrast s)) = Some ''false''"
proof -
  from assms obtain b where b: "getElementById ''high-contrast'' s = Some b"
    and p: "getAttribute ''aria-pressed'' b = Some ''true''"
    by (auto simp: indicatorPressed_def ariaPressed_def split: option.splits)
  show ?thesis
    by (simp add: toggleHighContrast_off [OF b p] markerPresent_def ariaPressed_def getItem_def
        getElementById_def getAttribute_def classList_remove_def)
qed

lemma toggleFontSize_pressed:
  assumes "indicatorPressed ''font-size'' s"
  shows "isDone (toggleFontSize s) \<and>
     \<not> markerPresent ''large-text'' (pageOf (toggleFontSize s)) \<and>
     ariaPressed ''font-size'' (pageOf (toggleFontSize s)) = Some ''false'' \<and>
     getItem ''largeText'' (pageOf (toggleFontSize s)) = Some ''false''"
proof -
  from assms obtain b where b: "getElementById ''font-size'' s = Some b"
    and p: "getAttribute ''aria-pressed'' b = Some ''true''"
    by (auto simp: indicatorPressed_def ariaPressed_def split: option.splits)
  show ?thesis
    by (simp add: toggleFontSize_off [OF b p] markerPresent_def ariaPressed_def getItem_def
        getElementById_def getAttribute_def classList_remove_def)
qed

text \<open>Two toggles in a row, from a state whose marker agrees with the indicator.\<close>

lemma toggleHighContrast_twice:
  assumes "hasControl ''high-contrast'' s"
    and "markerPresent ''high-contrast'' s = indicatorPressed ''high-contrast'' s"
  shows "isDone (toggleHighContrast s) \<and>
     isDone (toggleHighContrast (pageOf (toggleHighContrast s))) \<and>
     set (rootClasses (pageOf (toggleHighContrast (pageOf (toggleHighContrast s))))) = set (rootClasses s) \<and>
     ariaPressed ''high-contrast'' (pageOf (toggleHighContrast (pageOf (toggleHighContrast s))))
       = Some (jsString (indicatorPressed ''high-contrast'' s)) \<and>
     getItem ''highContrast'' (pageOf (toggleHighContrast (pageOf (toggleHighContrast s))))
       = Some (jsString (indicatorPressed ''high-contrast'' s))"
proof -
  from assms(1) obtain b where b: "getElementById ''high-contrast'' s = Some b"
    by (auto simp: hasControl_def)
  show ?thesis
  proof (cases "getAttribute ''aria-pressed'' b = Some ''true''")
    case True
    let ?s1 = "pageOf (toggleHighContrast s)"
    have b1: "getElementById ''high-contrast'' ?s1 = Some (b(''aria-pressed'' \<mapsto> ''false''))"
      by (simp add: toggleHighContrast_off [OF b True] getElementById_def)
    have p1: "getAttribute ''aria-pressed'' (b(''aria-pressed'' \<mapsto> ''false'')) \<noteq> Some ''true''"
      by (simp add: getAttribute_def)
    have m: "''high-contrast'' \<in> set (rootClasses s)"
      using assms(2) b True by (simp add: markerPresent_def indicatorPressed_def ariaPressed_def)
    have pr: "indicatorPressed ''high-contrast'' s"
      using b True by (simp add: indicatorPressed_def ariaPressed_def)
    have d1: "isDone (toggleHighContrast s)"
      by (simp add: toggleHighContrast_off [OF b True])
    have r1: "rootClasses ?s1 = classList_remove ''high-contrast'' (rootClasses s)"
      by (simp add: toggleHighContrast_off [OF b True])
    show ?thesis using m pr d1
      by (auto simp: toggleHighContrast_on [OF b1 p1] r1
          ariaPressed_def getItem_def getElementById_def getAttribute_def jsString_def
          classList_add_def classList_remove_def)
  next
    case False
    let ?s1 = "pageOf (toggleHighContrast s)"
    have b1: "getElementById ''high-contrast'' ?s1 = Some (b(''aria-pressed'' \<mapsto> ''true''))"
      by (simp add: toggleHighContrast_on [OF b False] getElementById_def)
    have p1: "getAttribute ''aria-pressed'' (b(''aria-pressed'' \<mapsto> ''true'')) = Some ''true''"
      by (simp add: getAttribute_def)
    have m: "''high-contrast'' \<notin> set (rootClasses s)"
      using assms(2) b False by (simp add: markerPresent_def indicatorPressed_def ariaPressed_def)
    have pr: "\<not> indicatorPressed ''high-contrast'' s"
      using b False by (simp add: indicatorPressed_def ariaPressed_def)
    have d1: "isDone (toggleHighContrast s)"
      by (simp add: toggleHighContrast_on [OF b False])
    have r1: "rootClasses ?s1 = classList_add ''high-contrast'' (rootClasses s)"
      by (simp add: toggleHighContrast_on [OF b False])
    show ?thesis using m pr d1
      by (auto simp: toggleHighContrast_off [OF b1 p1] r1
          ariaPressed_def getItem_def getElementById_def getAttribute_def jsString_def
          classList_add_def classList_remove_def)
  qed
qed

lemma toggleFontSize_twice:
  assumes "hasControl ''font-size'' s"
    and "markerPresent ''large-text'' s = indicatorPressed ''font-size'' s"
  shows "isDone (toggleFontSize s) \<and>
     isDone (toggleFontSize (pageOf (toggleFontSize s))) \<and>
     set (rootClasses (pageOf (toggleFontSize (pageOf (toggleFontSize s))))) = set (rootClasses s) \<and>
     ariaPressed ''font-size'' (pageOf (toggleFontSize (pageOf (toggleFontSize s))))
       = Some (jsString (indicatorPressed ''font-size'' s)) \<and>
     getItem ''largeText'' (pageOf (toggleFontSize (pageOf (toggleFontSize s))))
       = Some (jsString (indicatorPressed ''font-size'' s))"
proof -
  from assms(1) obtain b where b: "getElementById ''font-size'' s = Some b"
    by (auto simp: hasControl_def)
  show ?thesis
  proof (cases "getAttribute ''aria-pressed'' b = Some ''true''")
    case True
    let ?s1 = "pageOf (toggleFontSize s)"
    have b1: "getElementById ''font-size'' ?s1 = Some (b(''aria-pressed'' \<mapsto> ''false''))"
      by (simp add: toggleFontSize_off [OF b True] getElementById_def)
    have p1: "getAttribute ''aria-pressed'' (b(''aria-pressed'' \<mapsto> ''false'')) \<noteq> Some ''true''"
      by (simp add: getAttribute_def)
    have m: "''large-text'' \<in> set (rootClasses s)"
      using assms(2) b True by (simp add: markerPresent_def indicatorPressed_def ariaPressed_def)
    have pr: "indicatorPressed ''font-size'' s"
      using b True by (simp add: indicatorPressed_def ariaPressed_def)
    have d1: "isDone (toggleFontSize s)"
      by (simp add: toggleFontSize_off [OF b True])
    have r1: "rootClasses ?s1 = classList_remove ''large-text'' (rootClasses s)"
      by (simp add: toggleFontSize_off [OF b True])
    show ?thesis using m pr d1
      by (auto simp: toggleFontSize_on [OF b1 p1] r1
          ariaPressed_def getItem_def getElementById_def getAttribute_def jsString_def
          classList_add_def classList_remove_def)
  next
    case False
    let ?s1 = "pageOf (toggleFontSize s)"
    have b1: "getElementById ''font-size'' ?s1 = Some (b(''aria-pressed'' \<mapsto> ''true''))"
      by (simp add: toggleFontSize_on [OF b False] getElementById_def)
    have p1: "getAttribute ''aria-pressed'' (b(''aria-pressed'' \<mapsto> ''true'')) = Some ''true''"
      by (simp add: getAttribute_def)
    have m: "''large-text'' \<notin> set (rootClasses s)"
      using assms(2) b False by (simp add: markerPresent_def indicatorPressed_def ariaPressed_def)
    have pr: "\<not> indicatorPressed ''font-size'' s"
      using b False by (simp add: indicatorPressed_def ariaPressed_def)
    have d1: "isDone (toggleFontSize s)"
      by (simp add: toggleFontSize_on [OF b False])
    have r1: "rootClasses ?s1 = classList_add ''large-text'' (rootClasses s)"
      by (simp add: toggleFontSize_on [OF b False])
    show ?thesis using m pr d1
      by (auto simp: toggleFontSize_off [OF b1 p1] r1
          ariaPressed_def getItem_def getElementById_def getAttribute_def jsString_def
          classList_add_def classList_remove_def)
  qed
qed

text \<open>No function of the script removes a key: the store only grows.\<close>

lemma toggleHighContrast_keeps_keys:
  "dom (localStorage s) \<subseteq> dom (localStorage (pageOf (toggleHighContrast s)))"
proof (cases "getElementById ''high-contrast'' s")
  case None
  then show ?thesis by (simp add: toggleHighContrast_missing)
next
  case (Some b)
  show ?thesis
  proof (cases "getAttribute ''aria-pressed'' b = Some ''true''")
    case True
    show ?thesis by (auto simp: toggleHighContrast_off [OF Some True])
  next
    case False
    show ?thesis by (auto simp: toggleHighContrast_on [OF Some False])
  qed
qed

lemma toggleFontSize_keeps_keys:
  "dom (localStorage s) \<subseteq> dom (localStorage (pageOf (toggleFontSize s)))"
proof (cases "getElementById ''font-size'' s")
  case None
  then show ?thesis by (simp add: toggleFontSize_missing)
next
  case (Some b)
  show ?thesis
  proof (cases "getAttribute ''aria-pressed'' b = Some ''true''")
    case True
    show ?thesis by (auto simp: toggleFontSize_off [OF Some True])
  next
    case False
    show ?thesis by (auto simp: toggleFontSize_on [OF Some False])
  qed
qed

lemma initAccessibilityFeatures_cases:
  assumes "hasControl ''high-contrast'' s" and "hasControl ''font-size'' s"
  shows "isDone (initAccessibilityFeatures s) \<and>
    (getItem ''highContrast'' s = Some ''true'' \<longrightarrow>
       markerPresent ''high-contrast'' (pageOf (initAccessibilityFeatures s)) \<and>
       ariaPressed ''high-contrast'' (pageOf (initAccessibilityFeatures s)) = Some ''true'') \<and>
    (getItem ''highContrast'' s \<noteq> Some ''true'' \<longrightarrow>
       markerPresent ''high-contrast'' (pageOf (initAccessibilityFeatures s)) = markerPresent ''high-contrast'' s \<and>
       ariaPressed ''high-contrast'' (pageOf (initAccessibilityFeatures s)) = ariaPressed ''high-contrast'' s) \<and>
    (getItem ''largeText'' s = Some ''true'' \<longrightarrow>
       markerPresent ''large-text'' (pageOf (initAccessibilityFeatures s)) \<and>
       ariaPressed ''font-size'' (pageOf (initAccessibilityFeatures s)) = Some ''true'') \<and>
    (getItem ''largeText'' s \<noteq> Some ''true'' \<longrightarrow>
       markerPresent ''large-text'' (pageOf (initAccessibilityFeatures s)) = markerPresent ''large-text'' s \<and>
       ariaPressed ''font-size'' (pageOf (initAccessibilityFeatures s)) = ariaPressed ''font-size'' s) \<and>
    localStorage (pageOf (initAccessibilityFeatures s)) = localStorage s \<and>
    hasControl ''high-contrast'' (pageOf (initAccessibilityFeatures s)) \<and>
    hasControl ''font-size'' (pageOf (initAccessibilityFeatures s))"
proof -
  from assms obtain b1 b2 where
    b: "elements s ''high-contrast'' = Some b1" "elements s ''font-size'' = Some b2"
    by (auto simp: hasControl_def getElementById_def)
  show ?thesis using b
    by (simp add: initAccessibilityFeatures_def restorePreference_def getElementById_def
        getItem_def setAttribute_def getAttribute_def classList_add_def markerPresent_def
        ariaPressed_def hasControl_def Let_def)
qed

text \<open>Restoration on a markup that leaves both preferences off establishes the agreement.\<close>

lemma init_consistent:
  assumes "hasControl ''high-contrast'' s" and "hasControl ''font-size'' s"
    and "markupOff ''high-contrast'' ''high-contrast'' s" and "markupOff ''large-text'' ''font-size'' s"
  shows "consistent (pageOf (initAccessibilityFeatures s))"
  using initAccessibilityFeatures_cases [OF assms(1,2)] assms(3,4)
  by (auto simp: consistent_def agree_def markupOff_def indicatorPressed_def storedOn_def getItem_def)

text \<open>Restoration reads the store and never writes it.\<close>

lemma initAccessibilityFeatures_store:
  "localStorage (pageOf (initAccessibilityFeatures s)) = localStorage s"
  by (simp add: initAccessibilityFeatures_def restorePreference_def getElementById_def
      setAttribute_def Let_def split: option.splits)

lemma initAccessibilityFeatures_not_stored:
  "(getItem ''highContrast'' s \<noteq> Some ''true'' \<longrightarrow>
      markerPresent ''high-contrast'' (pageOf (initAccessibilityFeatures s)) = markerPresent ''high-contrast'' s \<and>
      getElementById ''high-contrast'' (pageOf (initAccessibilityFeatures s)) = getElementById ''high-contrast'' s) \<and>
   (getItem ''largeText'' s \<noteq> Some ''true'' \<longrightarrow>
      markerPresent ''large-text'' (pageOf (initAccessibilityFeatures s)) = markerPresent ''large-text'' s \<and>
      getElementById ''font-size'' (pageOf (initAccessibilityFeatures s)) = getElementById ''font-size'' s)"
  by (simp add: initAccessibilityFeatures_def restorePreference_def getElementById_def
      setAttribute_def Let_def getItem_def markerPresent_def classList_add_def
      split: option.splits)

section \<open>The event loop\<close>

lemma earliest_None: "earliest ts = None \<longleftrightarrow> ts = []"
  by (cases ts) (auto split: option.splits)

lemma runTimers_none:
  "earliest (timers s) = None \<Longrightarrow> runTimers target s = s\<lparr>now := max (now s) target\<rparr>"
  by (simp add: runTimers.simps [of target s])

lemma runTimers_later:
  "earliest (timers s) = Some t \<Longrightarrow> \<not> due t \<le> target \<Longrightarrow>
   runTimers target s = s\<lparr>now := max (now s) target\<rparr>"
  by (simp add: runTimers.simps [of target s])

lemma runTimers_fire:
  "earliest (timers s) = Some t \<Longrightarrow> due t \<le> target \<Longrightarrow>
   runTimers target s =
     runTimers target (fire t (s\<lparr>timers := remove1 t (timers s), now := max (now s) (due t)\<rparr>))"
  by (simp add: runTimers.simps [of target s])

lemma fire_now [simp]: "now (fire t s) = now s"
  by (simp add: fire_def split: timer_action.splits)

lemma fire_sameDocument: "sameDocument (fire t s) s"
  by (simp add: sameDocument_def fire_def split: timer_action.splits)

lemma runTimers_sameDocument: "sameDocument (runTimers target s) s"
proof (induction target s rule: runTimers.induct)
  case (1 target s)
  show ?case
  proof (cases "earliest (timers s)")
    case None
    then show ?thesis by (simp add: runTimers.simps [of target s] sameDocument_def)
  next
    case (Some t)
    show ?thesis
    proof (cases "due t \<le> target")
      case True
      from "1.IH" [OF Some True] fire_sameDocument [of t "s\<lparr>timers := remove1 t (timers s), now := max (now s) (due t)\<rparr>"]
      show ?thesis using Some True
        by (simp add: runTimers.simps [of target s] sameDocument_def)
    next
      case False
      with Some show ?thesis by (simp add: runTimers.simps [of target s] sameDocument_def)
    qed
  qed
qed

lemma advance_sameDocument: "sameDocument (advance d s) s"
  by (simp add: advance_def runTimers_sameDocument)

lemma onResize_sameDocument: "sameDocument (onResize s) s"
  by (simp add: onResize_def debounce_def clearTimeout_def setTimeout_def sameDocument_def
      split: option.splits)

lemma sameDocument_observers:
  "sameDocument s' s \<Longrightarrow>
   markerPresent c s' = markerPresent c s \<and> getElementById i s' = getElementById i s \<and>
   getItem k s' = getItem k s"
  by (simp add: sameDocument_def markerPresent_def getElementById_def getItem_def)

lemma sameDocument_consistent: "sameDocument s' s \<Longrightarrow> consistent s' = consistent s"
  by (simp add: consistent_def sameDocument_def agree_def markerPresent_def indicatorPressed_def
      ariaPressed_def storedOn_def hasControl_def getElementById_def getItem_def)

lemma sameDocument_localStorage: "sameDocument s' s \<Longrightarrow> localStorage s' = localStorage s"
  by (simp add: sameDocument_def)

lemma runTimers_timers:
  "timers (runTimers target s) = filter (\<lambda>t. target < due t) (timers s)"
proof (induction target s rule: runTimers.induct)
  case (1 target s)
  show ?case
  proof (cases "earliest (timers s)")
    case None
    then show ?thesis by (simp add: runTimers_none earliest_None)
  next
    case (Some t)
    show ?thesis
    proof (cases "due t \<le> target")
      case True
      have "timers (runTimers target s) = filter (\<lambda>t. target < due t) (remove1 t (timers s))"
        using "1.IH" [OF Some True] by (simp add: runTimers_fire [OF Some True])
      also have "\<dots> = remove1 t (filter (\<lambda>t. target < due t) (timers s))"
        by (simp add: filter_remove1)
      also have "\<dots> = filter (\<lambda>t. target < due t) (timers s)"
        using True by (simp add: remove1_idem)
      finally show ?thesis .
    next
      case False
      have "\<forall>u\<in>set (timers s). target < due u"
        using earliest_least [OF Some] False by fastforce
      then have "filter (\<lambda>t. target < due t) (timers s) = timers s" by simp
      then show ?thesis by (simp add: runTimers_later [OF Some False])
    qed
  qed
qed

lemma runTimers_now: "now (runTimers target s) = max (now s) target"
proof (induction target s rule: runTimers.induct)
  case (1 target s)
  show ?case
  proof (cases "earliest (timers s)")
    case None
    then show ?thesis by (simp add: runTimers_none)
  next
    case (Some t)
    show ?thesis
    proof (cases "due t \<le> target")
      case True
      show ?thesis using "1.IH" [OF Some True] True
        by (simp add: runTimers_fire [OF Some True])
    next
      case False
      then show ?thesis by (simp add: runTimers_later [OF Some False])
    qed
  qed
qed

lemma runTimers_timeout: "timeout (runTimers target s) = timeout s"
proof (induction target s rule: runTimers.induct)
  case (1 target s)
  show ?case
  proof (cases "earliest (timers s)")
    case None
    then show ?thesis by (simp add: runTimers_none)
  next
    case (Some t)
    show ?thesis
    proof (cases "due t \<le> target")
      case True
      show ?thesis using "1.IH" [OF Some True]
        by (simp add: runTimers_fire [OF Some True] fire_def split: timer_action.splits)
    next
      case False
      then show ?thesis by (simp add: runTimers_later [OF Some False])
    qed
  qed
qed

lemma runTimers_cleared:
  "liveRegion s = '''' \<or> (\<exists>t\<in>set (timers s). action t = ClearLiveRegion \<and> due t \<le> target) \<Longrightarrow>
   liveRegion (runTimers target s) = ''''"
proof (induction target s rule: runTimers.induct)
  case (1 target s)
  show ?case
  proof (cases "earliest (timers s)")
    case None
    then have "timers s = []" by (simp add: earliest_None)
    with "1.prems" None show ?thesis by (simp add: runTimers_none)
  next
    case (Some t)
    show ?thesis
    proof (cases "due t \<le> target")
      case True
      let ?s' = "fire t (s\<lparr>timers := remove1 t (timers s), now := max (now s) (due t)\<rparr>)"
      have "liveRegion ?s' = '''' \<or> (\<exists>u\<in>set (timers ?s'). action u = ClearLiveRegion \<and> due u \<le> target)"
      proof (cases "action t")
        case ClearLiveRegion
        then show ?thesis by (simp add: fire_def)
      next
        case CallResizeHandler
        from "1.prems" show ?thesis
        proof
          assume "liveRegion s = ''''"
          with CallResizeHandler show ?thesis by (simp add: fire_def)
        next
          assume "\<exists>u\<in>set (timers s). action u = ClearLiveRegion \<and> due u \<le> target"
          then obtain u where u: "u \<in> set (timers s)" "action u = ClearLiveRegion" "due u \<le> target"
            by blast
          with CallResizeHandler have "u \<noteq> t" by auto
          with u have "u \<in> set (remove1 t (timers s))" by simp
          with u show ?thesis by auto
        qed
      qed
      then have "liveRegion (runTimers target ?s') = ''''" by (rule "1.IH" [OF Some True])
      then show ?thesis by (simp add: runTimers_fire [OF Some True])
    next
      case False
      have "\<forall>u\<in>set (timers s). target < due u"
        using earliest_least [OF Some] False by fastforce
      with "1.prems" have "liveRegion s = ''''" by fastforce
      then show ?thesis by (simp add: runTimers_later [OF Some False])
    qed
  qed
qed

lemma runTimers_kept:
  "\<forall>t\<in>set (timers s). action t = ClearLiveRegion \<longrightarrow> target < due t \<Longrightarrow>
   liveRegion (runTimers target s) = liveRegion s"
proof (induction target s rule: runTimers.induct)
  case (1 target s)
  show ?case
  proof (cases "earliest (timers s)")
    case None
    then show ?thesis by (simp add: runTimers_none)
  next
    case (Some t)
    show ?thesis
    proof (cases "due t \<le> target")
      case True
      let ?s' = "fire t (s\<lparr>timers := remove1 t (timers s), now := max (now s) (due t)\<rparr>)"
      have t: "t \<in> set (timers s)" using Some by (rule earliest_mem)
      with "1.prems" True have a: "action t = CallResizeHandler"
        by (cases "action t") auto
      have "\<forall>u\<in>set (timers ?s'). action u = ClearLiveRegion \<longrightarrow> target < due u"
        using "1.prems" by (auto dest: notin_set_remove1)
      then have "liveRegion (runTimers target ?s') = liveRegion ?s'" by (rule "1.IH" [OF Some True])
      with a show ?thesis by (simp add: runTimers_fire [OF Some True] fire_def)
    next
      case False
      then show ?thesis by (simp add: runTimers_later [OF Some False])
    qed
  qed
qed

lemma runTimers_resize_none:
  "\<forall>t\<in>set (timers s). action t = CallResizeHandler \<longrightarrow> target < due t \<Longrightarrow>
   resizeCalls (runTimers target s) = resizeCalls s"
proof (induction target s rule: runTimers.induct)
  case (1 target s)
  show ?case
  proof (cases "earliest (timers s)")
    case None
    then show ?thesis by (simp add: runTimers_none)
  next
    case (Some t)
    show ?thesis
    proof (cases "due t \<le> target")
      case True
      let ?s' = "fire t (s\<lparr>timers := remove1 t (timers s), now := max (now s) (due t)\<rparr>)"
      have t: "t \<in> set (timers s)" using Some by (rule earliest_mem)
      with "1.prems" True have a: "action t = ClearLiveRegion"
        by (cases "action t") auto
      have "\<forall>u\<in>set (timers ?s'). action u = CallResizeHandler \<longrightarrow> target < due u"
        using "1.prems" by (auto dest: notin_set_remove1)
      then have "resizeCalls (runTimers target ?s') = resizeCalls ?s'" by (rule "1.IH" [OF Some True])
      with a show ?thesis by (simp add: runTimers_fire [OF Some True] fire_def)
    next
      case False
      then show ?thesis by (simp add: runTimers_later [OF Some False])
    qed
  qed
qed

lemma runTimers_resize_one:
  "pendingResize s = [r] \<Longrightarrow> due r \<le> target \<Longrightarrow> now s \<le> due r \<Longrightarrow>
   resizeCalls (runTimers target s) = resizeCalls s @ [due r]"
proof (induction target s rule: runTimers.induct)
  case (1 target s)
  have "r \<in> set (pendingResize s)" using "1.prems"(1) by simp
  then have r: "r \<in> set (timers s)" "action r = CallResizeHandler"
    by (simp_all add: pendingResize_def)
  show ?case
  proof (cases "earliest (timers s)")
    case None
    with r show ?thesis by (simp add: earliest_None)
  next
    case (Some t)
    have tr: "due t \<le> due r" using Some r(1) by (rule earliest_least)
    with "1.prems" have True: "due t \<le> target" by simp
    let ?s0 = "s\<lparr>timers := remove1 t (timers s), now := max (now s) (due t)\<rparr>"
    let ?s' = "fire t ?s0"
    have t: "t \<in> set (timers s)" using Some by (rule earliest_mem)
    show ?thesis
    proof (cases "action t")
      case ClearLiveRegion
      have "pendingResize ?s' = remove1 t (pendingResize s)"
        by (simp add: pendingResize_def filter_remove1)
      also have "\<dots> = [r]" using ClearLiveRegion r "1.prems"(1) by auto
      finally have p: "pendingResize ?s' = [r]" .
      have n: "now ?s' \<le> due r" using tr "1.prems"(3) by simp
      have "resizeCalls (runTimers target ?s') = resizeCalls ?s' @ [due r]"
        using p "1.prems"(2) n by (rule "1.IH" [OF Some True])
      with ClearLiveRegion show ?thesis by (simp add: runTimers_fire [OF Some True] fire_def)
    next
      case CallResizeHandler
      with t have "t \<in> set (pendingResize s)" by (simp add: pendingResize_def)
      with "1.prems"(1) have e: "t = r" by simp
      have "pendingResize ?s' = remove1 t (pendingResize s)"
        by (simp add: pendingResize_def filter_remove1)
      with e "1.prems"(1) have "pendingResize ?s' = []" by simp
      then have "\<forall>u\<in>set (timers ?s'). action u = CallResizeHandler \<longrightarrow> target < due u"
        by (simp add: pendingResize_def filter_empty_conv)
      then have "resizeCalls (runTimers target ?s') = resizeCalls ?s'" by (rule runTimers_resize_none)
      also have "\<dots> = resizeCalls s @ [due r]"
        using CallResizeHandler e "1.prems"(3) by (simp add: fire_def max_def)
      finally show ?thesis by (simp add: runTimers_fire [OF Some True])
    qed
  qed
qed

lemma advance_now: "now (advance d s) = now s + d"
  by (simp add: advance_def runTimers_now)

lemma advance_timers: "timers (advance d s) = filter (\<lambda>t. now s + d < due t) (timers s)"
  by (simp add: advance_def runTimers_timers)

lemma advance_pendingResize:
  "pendingResize (advance d s) = filter (\<lambda>t. now s + d < due t) (pendingResize s)"
  by (simp add: pendingResize_def advance_timers) (metis (mono_tags, lifting) filter_cong)

lemma advance_resize_none:
  "\<forall>t\<in>set (pendingResize s). now s + d < due t \<Longrightarrow> resizeCalls (advance d s) = resizeCalls s"
  unfolding advance_def by (rule runTimers_resize_none) (simp add: pendingResize_def)

lemma announceToScreenReader_eq:
  "announceToScreenReader m s =
     s\<lparr>liveRegion := m,
       timers := timers s @ [\<lparr>timerId = nextTimerId s, due = now s + 100, action = ClearLiveRegion\<rparr>],
       nextTimerId := Suc (nextTimerId s)\<rparr>"
  by (simp add: announceToScreenReader_def setTimeout_def)

lemma announceToScreenReader_now: "now (announceToScreenReader m s) = now s"
  by (simp add: announceToScreenReader_eq)

lemma announceToScreenReader_liveRegion: "liveRegion (announceToScreenReader m s) = m"
  by (simp add: announceToScreenReader_eq)

lemma announceToScreenReader_timers:
  "timers (announceToScreenReader m s) =
     timers s @ [\<lparr>timerId = nextTimerId s, due = now s + 100, action = ClearLiveRegion\<rparr>]"
  by (simp add: announceToScreenReader_eq)

section \<open>Sequences of events\<close>

lemma step_consistent: "consistent s \<Longrightarrow> consistent (step e s)"
  by (cases e)
     (simp_all add: toggleHighContrast_consistent toggleFontSize_consistent
        sameDocument_consistent [OF onResize_sameDocument]
        sameDocument_consistent [OF advance_sameDocument])

lemma run_consistent: "consistent s \<Longrightarrow> consistent (run es s)"
  by (induction es arbitrary: s) (simp_all add: step_consistent)

lemma step_keeps_keys: "dom (localStorage s) \<subseteq> dom (localStorage (step e s))"
proof (cases e)
  case ClickHighContrast
  then show ?thesis by (simp add: toggleHighContrast_keeps_keys)
next
  case (KeydownHighContrast k)
  then show ?thesis
    by (cases "k = ''Enter'' \<or> k = '' ''") (simp_all add: toggleHighContrast_keeps_keys)
next
  case ClickFontSize
  then show ?thesis by (simp add: toggleFontSize_keeps_keys)
next
  case (KeydownFontSize k)
  then show ?thesis
    by (cases "k = ''Enter'' \<or> k = '' ''") (simp_all add: toggleFontSize_keeps_keys)
next
  case Resize
  then show ?thesis by (simp add: sameDocument_localStorage [OF onResize_sameDocument])
next
  case (Elapse d)
  then show ?thesis by (simp add: sameDocument_localStorage [OF advance_sameDocument])
qed

lemma run_keeps_keys: "dom (localStorage s) \<subseteq> dom (localStorage (run es s))"
proof (induction es arbitrary: s)
  case Nil
  show ?case by simp
next
  case (Cons e es)
  have "dom (localStorage s) \<subseteq> dom (localStorage (step e s))" by (rule step_keeps_keys)
  also have "\<dots> \<subseteq> dom (localStorage (run es (step e s)))" by (rule Cons.IH)
  finally show ?case by simp
qed

lemma onResize_fields:
  "now (onResize s) = now s \<and> resizeCalls (onResize s) = resizeCalls s \<and>
   timeout (onResize s) = Some (nextTimerId s) \<and>
   timers (onResize s) =
     (case timeout s of None \<Rightarrow> timers s | Some h \<Rightarrow> filter (\<lambda>t. timerId t \<noteq> h) (timers s))
     @ [\<lparr>timerId = nextTimerId s, due = now s + 250, action = CallResizeHandler\<rparr>]"
  by (simp add: onResize_def debounce_def clearTimeout_def setTimeout_def split: option.splits)

lemma onResize_pending:
  assumes "debounceInv s"
  shows "pendingResize (onResize s) =
           [\<lparr>timerId = nextTimerId s, due = now s + 250, action = CallResizeHandler\<rparr>]"
proof (cases "timeout s")
  case None
  with assms have "\<forall>t\<in>set (timers s). action t \<noteq> CallResizeHandler"
    by (auto simp: debounceInv_def)
  then have "filter (\<lambda>t. action t = CallResizeHandler) (timers s) = []"
    by (simp add: filter_empty_conv)
  with None show ?thesis by (simp add: pendingResize_def onResize_fields)
next
  case (Some h)
  with assms have "\<forall>t\<in>set (timers s). action t = CallResizeHandler \<longrightarrow> timerId t = h"
    by (auto simp: debounceInv_def)
  then have "filter (\<lambda>t. action t = CallResizeHandler) (filter (\<lambda>t. timerId t \<noteq> h) (timers s)) = []"
    by (auto simp: filter_empty_conv)
  with Some show ?thesis by (simp add: pendingResize_def onResize_fields)
qed

lemma onResize_debounceInv:
  assumes "debounceInv s"
  shows "debounceInv (onResize s)"
proof -
  have "\<forall>t\<in>set (pendingResize (onResize s)). timeout (onResize s) = Some (timerId t)"
    by (simp add: onResize_pending [OF assms] onResize_fields)
  then show ?thesis by (auto simp: debounceInv_def pendingResize_def)
qed

lemma advance_debounceInv: "debounceInv s \<Longrightarrow> debounceInv (advance d s)"
  by (simp add: debounceInv_def advance_timers) (simp add: advance_def runTimers_timeout)

lemma toggleHighContrast_debounceInv:
  assumes "debounceInv s"
  shows "debounceInv (pageOf (toggleHighContrast s))"
proof (cases "getElementById ''high-contrast'' s")
  case None
  with assms show ?thesis by (simp add: toggleHighContrast_missing)
next
  case (Some b)
  show ?thesis
  proof (cases "getAttribute ''aria-pressed'' b = Some ''true''")
    case True
    show ?thesis using assms by (auto simp: toggleHighContrast_off [OF Some True] debounceInv_def)
  next
    case False
    show ?thesis using assms by (auto simp: toggleHighContrast_on [OF Some False] debounceInv_def)
  qed
qed

lemma toggleFontSize_debounceInv:
  assumes "debounceInv s"
  shows "debounceInv (pageOf (toggleFontSize s))"
proof (cases "getElementById ''font-size'' s")
  case None
  with assms show ?thesis by (simp add: toggleFontSize_missing)
next
  case (Some b)
  show ?thesis
  proof (cases "getAttribute ''aria-pressed'' b = Some ''true''")
    case True
    show ?thesis using assms by (auto simp: toggleFontSize_off [OF Some True] debounceInv_def)
  next
    case False
    show ?thesis using assms by (auto simp: toggleFontSize_on [OF Some False] debounceInv_def)
  qed
qed

lemma step_debounceInv: "debounceInv s \<Longrightarrow> debounceInv (step e s)"
  by (cases e)
     (simp_all add: toggleHighContrast_debounceInv toggleFontSize_debounceInv
        onResize_debounceInv advance_debounceInv)

lemma run_debounceInv: "debounceInv s \<Longrightarrow> debounceInv (run es s)"
  by (induction es arbitrary: s) (simp_all add: step_debounceInv)

lemma no_timers_debounceInv: "timers s = [] \<Longrightarrow> debounceInv s"
  by (simp add: debounceInv_def)

lemma burst_pending:
  assumes "debounceInv s" and "\<forall>g\<in>set gs. g < 250"
  shows "debounceInv (run (burst gs) s) \<and>
         now (run (burst gs) s) = now s + sum_list gs \<and>
         resizeCalls (run (burst gs) s) = resizeCalls s \<and>
         (\<exists>i. pendingResize (run (burst gs) s) =
            [\<lparr>timerId = i, due = now s + sum_list gs + 250, action = CallResizeHandler\<rparr>])"
  using assms
proof (induction gs arbitrary: s)
  case Nil
  then show ?case by (simp add: onResize_debounceInv onResize_pending onResize_fields)
next
  case (Cons g gs)
  let ?s1 = "advance g (onResize s)"
  from Cons.prems have g: "g < 250" and gs: "\<forall>g\<in>set gs. g < 250" by simp_all
  have i1: "debounceInv ?s1"
    using Cons.prems(1) by (simp add: onResize_debounceInv advance_debounceInv)
  have n1: "now ?s1 = now s + g" by (simp add: advance_now onResize_fields)
  have "\<forall>t\<in>set (pendingResize (onResize s)). now (onResize s) + g < due t"
    using g by (simp add: onResize_pending [OF Cons.prems(1)] onResize_fields)
  then have "resizeCalls ?s1 = resizeCalls (onResize s)" by (rule advance_resize_none)
  then have r1: "resizeCalls ?s1 = resizeCalls s" by (simp add: onResize_fields)
  from Cons.IH [OF i1 gs] n1 r1 show ?case by (simp add: add.assoc)
qed

section \<open>The claims\<close>

text \<open>
  Claim C1. For each of the two preferences, the marker class on the root, the
  \<^verbatim>\<open>aria-pressed\<close> indicator of the control and the value stored under the key agree
  (all on, or all off) at the end of every toggle and at the end of the restoration at
  page load. A toggle of a preference establishes the agreement for that preference from
  any state of a page that has the control. Restoration only ever turns a preference on,
  so it establishes the agreement on a page whose markup leaves the preferences off, and
  from there the agreement of both preferences holds after every sequence of events.
\<close>

theorem preference_state_agrees:
  assumes "hasControl ''high-contrast'' s" and "hasControl ''font-size'' s"
  shows "isDone (toggleHighContrast s) \<and>
         agree ''high-contrast'' ''high-contrast'' ''highContrast'' (pageOf (toggleHighContrast s)) \<and>
         isDone (toggleFontSize s) \<and>
         agree ''large-text'' ''font-size'' ''largeText'' (pageOf (toggleFontSize s)) \<and>
         (markupOff ''high-contrast'' ''high-contrast'' s \<and> markupOff ''large-text'' ''font-size'' s \<longrightarrow>
            isDone (initAccessibilityFeatures s) \<and>
            (\<forall>es. agree ''high-contrast'' ''high-contrast'' ''highContrast''
                     (run es (pageOf (initAccessibilityFeatures s))) \<and>
                  agree ''large-text'' ''font-size'' ''largeText''
                     (run es (pageOf (initAccessibilityFeatures s)))))"
proof -
  have t1: "isDone (toggleHighContrast s) \<and>
      agree ''high-contrast'' ''high-contrast'' ''highContrast'' (pageOf (toggleHighContrast s))"
    using assms(1) by (rule toggleHighContrast_agree)
  have t2: "isDone (toggleFontSize s) \<and>
      agree ''large-text'' ''font-size'' ''largeText'' (pageOf (toggleFontSize s))"
    using assms(2) by (rule toggleFontSize_agree)
  have d: "isDone (initAccessibilityFeatures s)"
    using initAccessibilityFeatures_cases [OF assms] by simp
  have r: "consistent (run es (pageOf (initAccessibilityFeatures s)))"
    if "markupOff ''high-contrast'' ''high-contrast'' s" "markupOff ''large-text'' ''font-size'' s" for es
    using init_consistent [OF assms that] by (rule run_consistent)
  show ?thesis using t1 t2 d r by (simp add: consistent_def)
qed

text \<open>An instance: the returning visitor's page.\<close>

theorem preference_state_agrees_witness:
  "agree ''high-contrast'' ''high-contrast'' ''highContrast'' (pageOf (toggleHighContrast returningVisit)) \<and>
   agree ''large-text'' ''font-size'' ''largeText'' (pageOf (toggleFontSize returningVisit)) \<and>
   agree ''high-contrast'' ''high-contrast'' ''highContrast'' (pageOf (initAccessibilityFeatures returningVisit)) \<and>
   agree ''large-text'' ''font-size'' ''largeText'' (pageOf (initAccessibilityFeatures returningVisit)) \<and>
   agree ''high-contrast'' ''high-contrast'' ''highContrast''
     (run [ClickFontSize, Elapse 40, KeydownHighContrast ''Enter''] (pageOf (initAccessibilityFeatures returningVisit))) \<and>
   markerPresent ''high-contrast'' (pageOf (initAccessibilityFeatures returningVisit)) \<and>
   \<not> markerPresent ''large-text'' (pageOf (initAccessibilityFeatures returningVisit))"
proof -
  have c: "hasControl ''high-contrast'' returningVisit" "hasControl ''font-size'' returningVisit"
    by (simp_all add: hasControl_def getElementById_def returningVisit_def)
  have m: "markupOff ''high-contrast'' ''high-contrast'' returningVisit"
      "markupOff ''large-text'' ''font-size'' returningVisit"
    by (simp_all add: markupOff_def markerPresent_def indicatorPressed_def ariaPressed_def
        getElementById_def getAttribute_def returningVisit_def)
  have p: "markerPresent ''high-contrast'' (pageOf (initAccessibilityFeatures returningVisit)) \<and>
   \<not> markerPresent ''large-text'' (pageOf (initAccessibilityFeatures returningVisit))"
    by (simp add: initAccessibilityFeatures_def restorePreference_def getItem_def getElementById_def
        setAttribute_def classList_add_def markerPresent_def returningVisit_def)
  have every: "agree ''high-contrast'' ''high-contrast'' ''highContrast''
                 (run es (pageOf (initAccessibilityFeatures returningVisit))) \<and>
               agree ''large-text'' ''font-size'' ''largeText''
                 (run es (pageOf (initAccessibilityFeatures returningVisit)))" for es
    using preference_state_agrees [OF c] m by blast
  have e0: "agree ''high-contrast'' ''high-contrast'' ''highContrast'' (pageOf (initAccessibilityFeatures returningVisit)) \<and>
      agree ''large-text'' ''font-size'' ''largeText'' (pageOf (initAccessibilityFeatures returningVisit))"
    using every [of "[]"] by simp
  have e1: "agree ''high-contrast'' ''high-contrast'' ''highContrast''
     (run [ClickFontSize, Elapse 40, KeydownHighContrast ''Enter''] (pageOf (initAccessibilityFeatures returningVisit)))"
    using every [of "[ClickFontSize, Elapse 40, KeydownHighContrast ''Enter'']"] by blast
  show ?thesis using preference_state_agrees [OF c] e0 e1 p by blast
qed

text \<open>
  Claim C2, as stated: from every starting state, two toggles return the marker class,
  the indicator and the stored value to what they were, also when nothing was stored.
  This fails on a first visit: the store has no value for the key before, and holds
  \<^verbatim>\<open>"false"\<close> after the two toggles, because a toggle always writes the key and nothing
  removes it.
\<close>

theorem toggle_twice_absent_store_counterexample:
  "getItem ''highContrast'' firstVisit = None \<and>
   getItem ''highContrast'' (pageOf (toggleHighContrast (pageOf (toggleHighContrast firstVisit))))
     = Some ''false'' \<and>
   getItem ''largeText'' firstVisit = None \<and>
   getItem ''largeText'' (pageOf (toggleFontSize (pageOf (toggleFontSize firstVisit))))
     = Some ''false'' \<and>
   getItem ''highContrast'' (pageOf (toggleHighContrast (pageOf (toggleHighContrast firstVisit))))
     \<noteq> getItem ''highContrast'' firstVisit"
proof -
  have c: "hasControl ''high-contrast'' firstVisit" "hasControl ''font-size'' firstVisit"
    by (simp_all add: hasControl_def getElementById_def firstVisit_def)
  have a: "markerPresent ''high-contrast'' firstVisit = indicatorPressed ''high-contrast'' firstVisit"
    "markerPresent ''large-text'' firstVisit = indicatorPressed ''font-size'' firstVisit"
    by (simp_all add: markerPresent_def indicatorPressed_def ariaPressed_def getElementById_def
        getAttribute_def firstVisit_def)
  have p: "\<not> indicatorPressed ''high-contrast'' firstVisit" "\<not> indicatorPressed ''font-size'' firstVisit"
    by (simp_all add: indicatorPressed_def ariaPressed_def getElementById_def
        getAttribute_def firstVisit_def)
  have n: "getItem ''highContrast'' firstVisit = None" "getItem ''largeText'' firstVisit = None"
    by (simp_all add: getItem_def firstVisit_def)
  from toggleHighContrast_twice [OF c(1) a(1)] toggleFontSize_twice [OF c(2) a(2)] p n
  show ?thesis by (simp add: jsString_def)
qed

text \<open>
  Claim C2, amended. From a state of a page that has the control and in which marker,
  indicator and stored value agree, two toggles of a preference both succeed and restore
  the set of root classes and the on/off reading of marker, indicator and stored value.
  The indicator and the stored value end as the string \<^verbatim>\<open>'true'\<close> or \<^verbatim>\<open>'false'\<close> of
  that reading: they are restored exactly when they were one of these two strings
  before, and an absent or other value ends as \<^verbatim>\<open>'false'\<close>.
\<close>

theorem toggle_twice_restores_agreeing_state:
  "(hasControl ''high-contrast'' s \<and> agree ''high-contrast'' ''high-contrast'' ''highContrast'' s \<longrightarrow>
      isDone (toggleHighContrast s) \<and>
      isDone (toggleHighContrast (pageOf (toggleHighContrast s))) \<and>
      set (rootClasses (pageOf (toggleHighContrast (pageOf (toggleHighContrast s))))) = set (rootClasses s) \<and>
      markerPresent ''high-contrast'' (pageOf (toggleHighContrast (pageOf (toggleHighContrast s))))
        = markerPresent ''high-contrast'' s \<and>
      indicatorPressed ''high-contrast'' (pageOf (toggleHighContrast (pageOf (toggleHighContrast s))))
        = indicatorPressed ''high-contrast'' s \<and>
      storedOn ''highContrast'' (pageOf (toggleHighContrast (pageOf (toggleHighContrast s))))
        = storedOn ''highContrast'' s \<and>
      ariaPressed ''high-contrast'' (pageOf (toggleHighContrast (pageOf (toggleHighContrast s))))
        = Some (jsString (indicatorPressed ''high-contrast'' s)) \<and>
      getItem ''highContrast'' (pageOf (toggleHighContrast (pageOf (toggleHighContrast s))))
        = Some (jsString (storedOn ''highContrast'' s))) \<and>
   (hasControl ''font-size'' s \<and> agree ''large-text'' ''font-size'' ''largeText'' s \<longrightarrow>
      isDone (toggleFontSize s) \<and>
      isDone (toggleFontSize (pageOf (toggleFontSize s))) \<and>
      set (rootClasses (pageOf (toggleFontSize (pageOf (toggleFontSize s))))) = set (rootClasses s) \<and>
      markerPresent ''large-text'' (pageOf (toggleFontSize (pageOf (toggleFontSize s))))
        = markerPresent ''large-text'' s \<and>
      indicatorPressed ''font-size'' (pageOf (toggleFontSize (pageOf (toggleFontSize s))))
        = indicatorPressed ''font-size'' s \<and>
      storedOn ''largeText'' (pageOf (toggleFontSize (pageOf (toggleFontSize s))))
        = storedOn ''largeText'' s \<and>
      ariaPressed ''font-size'' (pageOf (toggleFontSize (pageOf (toggleFontSize s))))
        = Some (jsString (indicatorPressed ''font-size'' s)) \<and>
      getItem ''largeText'' (pageOf (toggleFontSize (pageOf (toggleFontSize s))))
        = Some (jsString (storedOn ''largeText'' s)))"
proof -
  have hc: "isDone (toggleHighContrast s) \<and>
      isDone (toggleHighContrast (pageOf (toggleHighContrast s))) \<and>
      set (rootClasses (pageOf (toggleHighContrast (pageOf (toggleHighContrast s))))) = set (rootClasses s) \<and>
      markerPresent ''high-contrast'' (pageOf (toggleHighContrast (pageOf (toggleHighContrast s))))
        = markerPresent ''high-contrast'' s \<and>
      indicatorPressed ''high-contrast'' (pageOf (toggleHighContrast (pageOf (toggleHighContrast s))))
        = indicatorPressed ''high-contrast'' s \<and>
      storedOn ''highContrast'' (pageOf (toggleHighContrast (pageOf (toggleHighContrast s))))
        = storedOn ''highContrast'' s \<and>
      ariaPressed ''high-contrast'' (pageOf (toggleHighContrast (pageOf (toggleHighContrast s))))
        = Some (jsString (indicatorPressed ''high-contrast'' s)) \<and>
      getItem ''highContrast'' (pageOf (toggleHighContrast (pageOf (toggleHighContrast s))))
        = Some (jsString (storedOn ''highContrast'' s))"
    if c: "hasControl ''high-contrast'' s" and a: "agree ''high-contrast'' ''high-contrast'' ''highContrast'' s"
  proof -
    from a have e: "markerPresent ''high-contrast'' s = indicatorPressed ''high-contrast'' s"
      and f: "storedOn ''highContrast'' s = indicatorPressed ''high-contrast'' s"
      by (auto simp: agree_def)
    from toggleHighContrast_twice [OF c e] e f show ?thesis
      by (auto simp: markerPresent_def indicatorPressed_def storedOn_def jsString_def)
  qed
  have fs: "isDone (toggleFontSize s) \<and>
      isDone (toggleFontSize (pageOf (toggleFontSize s))) \<and>
      set (rootClasses (pageOf (toggleFontSize (pageOf (toggleFontSize s))))) = set (rootClasses s) \<and>
      markerPresent ''large-text'' (pageOf (toggleFontSize (pageOf (toggleFontSize s))))
        = markerPresent ''large-text'' s \<and>
      indicatorPressed ''font-size'' (pageOf (toggleFontSize (pageOf (toggleFontSize s))))
        = indicatorPressed ''font-size'' s \<and>
      storedOn ''largeText'' (pageOf (toggleFontSize (pageOf (toggleFontSize s))))
        = storedOn ''largeText'' s \<and>
      ariaPressed ''font-size'' (pageOf (toggleFontSize (pageOf (toggleFontSize s))))
        = Some (jsString (indicatorPressed ''font-size'' s)) \<and>
      getItem ''largeText'' (pageOf (toggleFontSize (pageOf (toggleFontSize s))))
        = Some (jsString (storedOn ''largeText'' s))"
    if c: "hasControl ''font-size'' s" and a: "agree ''large-text'' ''font-size'' ''largeText'' s"
  proof -
    from a have e: "markerPresent ''large-text'' s = indicatorPressed ''font-size'' s"
      and f: "storedOn ''largeText'' s = indicatorPressed ''font-size'' s"
      by (auto simp: agree_def)
    from toggleFontSize_twice [OF c e] e f show ?thesis
      by (auto simp: markerPresent_def indicatorPressed_def storedOn_def jsString_def)
  qed
  from hc fs show ?thesis by blast
qed

text \<open>An instance: the page with high contrast on.\<close>

theorem toggle_twice_restores_agreeing_state_witness:
  "set (rootClasses (pageOf (toggleHighContrast (pageOf (toggleHighContrast contrastOn)))))
     = set (rootClasses contrastOn) \<and>
   ariaPressed ''high-contrast'' (pageOf (toggleHighContrast (pageOf (toggleHighContrast contrastOn))))
     = ariaPressed ''high-contrast'' contrastOn \<and>
   getItem ''highContrast'' (pageOf (toggleHighContrast (pageOf (toggleHighContrast contrastOn))))
     = getItem ''highContrast'' contrastOn \<and>
   ariaPressed ''font-size'' (pageOf (toggleFontSize (pageOf (toggleFontSize contrastOn))))
     = ariaPressed ''font-size'' contrastOn \<and>
   getItem ''largeText'' (pageOf (toggleFontSize (pageOf (toggleFontSize contrastOn))))
     = Some ''false'' \<and>
   \<not> storedOn ''largeText'' (pageOf (toggleFontSize (pageOf (toggleFontSize contrastOn))))"
proof -
  have c: "hasControl ''high-contrast'' contrastOn" "hasControl ''font-size'' contrastOn"
    by (simp_all add: hasControl_def getElementById_def contrastOn_def)
  have a: "agree ''high-contrast'' ''high-contrast'' ''highContrast'' contrastOn"
    "agree ''large-text'' ''font-size'' ''largeText'' contrastOn"
    by (simp_all add: agree_def markerPresent_def indicatorPressed_def ariaPressed_def storedOn_def
        getElementById_def getAttribute_def getItem_def contrastOn_def)
  have v: "indicatorPressed ''high-contrast'' contrastOn" "storedOn ''highContrast'' contrastOn"
    "\<not> indicatorPressed ''font-size'' contrastOn" "\<not> storedOn ''largeText'' contrastOn"
    "ariaPressed ''high-contrast'' contrastOn = Some ''true''"
    "getItem ''highContrast'' contrastOn = Some ''true''"
    "ariaPressed ''font-size'' contrastOn = Some ''false''"
    by (simp_all add: indicatorPressed_def ariaPressed_def storedOn_def
        getElementById_def getAttribute_def getItem_def contrastOn_def)
  from toggle_twice_restores_agreeing_state [of contrastOn] c a v
  show ?thesis by (simp add: jsString_def)
qed

text \<open>
  Claim C3. Whatever is stored, restoration at page load adds the marker class and sets
  \<^verbatim>\<open>aria-pressed\<close> to \<^verbatim>\<open>'true'\<close> when the stored value is exactly \<^verbatim>\<open>"true"\<close>, and
  for every other string and for an absent value it leaves marker and indicator as the
  markup has them. On a markup that leaves the preference off, the preference is
  therefore on after restoration if and only if the stored value is exactly \<^verbatim>\<open>"true"\<close>,
  and off otherwise.
\<close>

theorem restoration_on_iff_stored_true:
  assumes "hasControl ''high-contrast'' s" and "hasControl ''font-size'' s"
  shows "isDone (initAccessibilityFeatures s) \<and>
    (getItem ''highContrast'' s = Some ''true'' \<longrightarrow>
       markerPresent ''high-contrast'' (pageOf (initAccessibilityFeatures s)) \<and>
       ariaPressed ''high-contrast'' (pageOf (initAccessibilityFeatures s)) = Some ''true'') \<and>
    (getItem ''highContrast'' s \<noteq> Some ''true'' \<longrightarrow>
       markerPresent ''high-contrast'' (pageOf (initAccessibilityFeatures s)) = markerPresent ''high-contrast'' s \<and>
       ariaPressed ''high-contrast'' (pageOf (initAccessibilityFeatures s)) = ariaPressed ''high-contrast'' s) \<and>
    (markupOff ''high-contrast'' ''high-contrast'' s \<longrightarrow>
       (markerPresent ''high-contrast'' (pageOf (initAccessibilityFeatures s)) \<and>
        indicatorPressed ''high-contrast'' (pageOf (initAccessibilityFeatures s)))
         = (getItem ''highContrast'' s = Some ''true'') \<and>
       (\<not> markerPresent ''high-contrast'' (pageOf (initAccessibilityFeatures s)) \<and>
        \<not> indicatorPressed ''high-contrast'' (pageOf (initAccessibilityFeatures s)))
         = (getItem ''highContrast'' s \<noteq> Some ''true'')) \<and>
    (getItem ''largeText'' s = Some ''true'' \<longrightarrow>
       markerPresent ''large-text'' (pageOf (initAccessibilityFeatures s)) \<and>
       ariaPressed ''font-size'' (pageOf (initAccessibilityFeatures s)) = Some ''true'') \<and>
    (getItem ''largeText'' s \<noteq> Some ''true'' \<longrightarrow>
       markerPresent ''large-text'' (pageOf (initAccessibilityFeatures s)) = markerPresent ''large-text'' s \<and>
       ariaPressed ''font-size'' (pageOf (initAccessibilityFeatures s)) = ariaPressed ''font-size'' s) \<and>
    (markupOff ''large-text'' ''font-size'' s \<longrightarrow>
       (markerPresent ''large-text'' (pageOf (initAccessibilityFeatures s)) \<and>
        indicatorPressed ''font-size'' (pageOf (initAccessibilityFeatures s)))
         = (getItem ''largeText'' s = Some ''true'') \<and>
       (\<not> markerPresent ''large-text'' (pageOf (initAccessibilityFeatures s)) \<and>
        \<not> indicatorPressed ''font-size'' (pageOf (initAccessibilityFeatures s)))
         = (getItem ''largeText'' s \<noteq> Some ''true''))"
proof -
  note c = initAccessibilityFeatures_cases [OF assms]
  have hc: "(markerPresent ''high-contrast'' (pageOf (initAccessibilityFeatures s)) \<and>
        indicatorPressed ''high-contrast'' (pageOf (initAccessibilityFeatures s)))
         = (getItem ''highContrast'' s = Some ''true'') \<and>
       (\<not> markerPresent ''high-contrast'' (pageOf (initAccessibilityFeatures s)) \<and>
        \<not> indicatorPressed ''high-contrast'' (pageOf (initAccessibilityFeatures s)))
         = (getItem ''highContrast'' s \<noteq> Some ''true'')"
    if "markupOff ''high-contrast'' ''high-contrast'' s"
    using c that by (cases "getItem ''highContrast'' s = Some ''true''")
      (simp_all add: markupOff_def indicatorPressed_def)
  have lt: "(markerPresent ''large-text'' (pageOf (initAccessibilityFeatures s)) \<and>
        indicatorPressed ''font-size'' (pageOf (initAccessibilityFeatures s)))
         = (getItem ''largeText'' s = Some ''true'') \<and>
       (\<not> markerPresent ''large-text'' (pageOf (initAccessibilityFeatures s)) \<and>
        \<not> indicatorPressed ''font-size'' (pageOf (initAccessibilityFeatures s)))
         = (getItem ''largeText'' s \<noteq> Some ''true'')"
    if "markupOff ''large-text'' ''font-size'' s"
    using c that by (cases "getItem ''largeText'' s = Some ''true''")
      (simp_all add: markupOff_def indicatorPressed_def)
  from c hc lt show ?thesis by blast
qed

text \<open>An instance: the stored values \<^verbatim>\<open>"true"\<close>, \<^verbatim>\<open>"TRUE"\<close> and absent.\<close>

theorem restoration_on_iff_stored_true_witness:
  "markerPresent ''high-contrast''
     (pageOf (initAccessibilityFeatures (storedPage [''highContrast'' \<mapsto> ''true'', ''largeText'' \<mapsto> ''TRUE'']))) \<and>
   ariaPressed ''high-contrast''
     (pageOf (initAccessibilityFeatures (storedPage [''highContrast'' \<mapsto> ''true'', ''largeText'' \<mapsto> ''TRUE''])))
     = Some ''true'' \<and>
   \<not> markerPresent ''large-text''
     (pageOf (initAccessibilityFeatures (storedPage [''highContrast'' \<mapsto> ''true'', ''largeText'' \<mapsto> ''TRUE'']))) \<and>
   \<not> indicatorPressed ''font-size''
     (pageOf (initAccessibilityFeatures (storedPage [''highContrast'' \<mapsto> ''true'', ''largeText'' \<mapsto> ''TRUE'']))) \<and>
   \<not> markerPresent ''high-contrast'' (pageOf (initAccessibilityFeatures (storedPage Map.empty))) \<and>
   \<not> indicatorPressed ''high-contrast'' (pageOf (initAccessibilityFeatures (storedPage Map.empty)))"
proof -
  let ?st = "[''highContrast'' \<mapsto> ''true'', ''largeText'' \<mapsto> ''TRUE'']"
  have c: "hasControl ''high-contrast'' (storedPage st)" "hasControl ''font-size'' (storedPage st)" for st
    by (simp_all add: hasControl_def getElementById_def storedPage_def firstVisit_def)
  have m: "markupOff ''high-contrast'' ''high-contrast'' (storedPage st)"
      "markupOff ''large-text'' ''font-size'' (storedPage st)" for st
    by (simp_all add: markupOff_def markerPresent_def indicatorPressed_def ariaPressed_def
        getElementById_def getAttribute_def storedPage_def firstVisit_def)
  have g: "getItem ''highContrast'' (storedPage ?st) = Some ''true''"
      "getItem ''largeText'' (storedPage ?st) \<noteq> Some ''true''"
      "getItem ''highContrast'' (storedPage Map.empty) \<noteq> Some ''true''"
    by (simp_all add: getItem_def storedPage_def)
  from restoration_on_iff_stored_true [OF c, of ?st] restoration_on_iff_stored_true [OF c, of Map.empty]
    m [of ?st] m [of Map.empty] g
  show ?thesis by blast
qed

text \<open>
  Claim C4. Activating the high-contrast control while it is off (the control is on the
  page and its indicator is not \<^verbatim>\<open>'true'\<close>) has exactly these effects: the root gains
  the class \<^verbatim>\<open>high-contrast\<close>, the indicator of the control becomes \<^verbatim>\<open>'true'\<close>, the
  key \<^verbatim>\<open>highContrast\<close> of the store becomes \<^verbatim>\<open>"true"\<close>, and the live region carries
  the message that high contrast is on, with the timer that will clear it. Nothing else
  of the page changes.
\<close>

theorem high_contrast_activation_when_off:
  assumes "getElementById ''high-contrast'' s = Some b"
    and "\<not> indicatorPressed ''high-contrast'' s"
  shows "toggleHighContrast s = Done (s\<lparr>
           rootClasses := classList_add ''high-contrast'' (rootClasses s),
           elements := (elements s)(''high-contrast'' \<mapsto> b(''aria-pressed'' \<mapsto> ''true'')),
           localStorage := (localStorage s)(''highContrast'' \<mapsto> ''true''),
           liveRegion := ''High contrast mode turned on'',
           timers := timers s @ [\<lparr>timerId = nextTimerId s, due = now s + 100, action = ClearLiveRegion\<rparr>],
           nextTimerId := Suc (nextTimerId s)\<rparr>) \<and>
         markerPresent ''high-contrast'' (pageOf (toggleHighContrast s)) \<and>
         ariaPressed ''high-contrast'' (pageOf (toggleHighContrast s)) = Some ''true'' \<and>
         getItem ''highContrast'' (pageOf (toggleHighContrast s)) = Some ''true'' \<and>
         liveRegion (pageOf (toggleHighContrast s)) = ''High contrast mode turned on''"
proof -
  from assms have off: "getAttribute ''aria-pressed'' b \<noteq> Some ''true''"
    by (simp add: indicatorPressed_def ariaPressed_def)
  show ?thesis
    by (simp add: toggleHighContrast_on [OF assms(1) off] markerPresent_def ariaPressed_def
        getElementById_def getAttribute_def getItem_def classList_add_def)
qed

text \<open>An instance: the first-visit page.\<close>

theorem high_contrast_activation_when_off_witness:
  "rootClasses (pageOf (toggleHighContrast firstVisit)) = [''high-contrast''] \<and>
   markerPresent ''high-contrast'' (pageOf (toggleHighContrast firstVisit)) \<and>
   ariaPressed ''high-contrast'' (pageOf (toggleHighContrast firstVisit)) = Some ''true'' \<and>
   getItem ''highContrast'' (pageOf (toggleHighContrast firstVisit)) = Some ''true'' \<and>
   liveRegion (pageOf (toggleHighContrast firstVisit)) = ''High contrast mode turned on'' \<and>
   timers (pageOf (toggleHighContrast firstVisit)) = [\<lparr>timerId = 1, due = 100, action = ClearLiveRegion\<rparr>]"
proof -
  have c: "getElementById ''high-contrast'' firstVisit = Some [''aria-pressed'' \<mapsto> ''false'']"
    by (simp add: getElementById_def firstVisit_def)
  have off: "\<not> indicatorPressed ''high-contrast'' firstVisit"
    by (simp add: indicatorPressed_def ariaPressed_def getElementById_def getAttribute_def firstVisit_def)
  from high_contrast_activation_when_off [OF c off] show ?thesis
    by (simp add: firstVisit_def classList_add_def markerPresent_def ariaPressed_def
        getElementById_def getAttribute_def getItem_def)
qed

text \<open>
  Claim C5. For every message \<open>X\<close> and every state, \<open>announceToScreenReader X\<close> sets
  the text of the live region to \<open>X\<close> at once, and once 100 ms or more have passed with
  no further call the text is empty. Until then the text is still \<open>X\<close>, unless an older
  clearing timer was pending (claim C6). Time is the clock of the event loop: a timer
  fires when its due time is reached.
\<close>

theorem announce_sets_then_clears:
  "liveRegion (announceToScreenReader X s) = X \<and>
   (100 \<le> d \<longrightarrow> liveRegion (advance d (announceToScreenReader X s)) = '''') \<and>
   (d < 100 \<and> (\<forall>t\<in>set (timers s). action t = ClearLiveRegion \<longrightarrow> now s + d < due t) \<longrightarrow>
      liveRegion (advance d (announceToScreenReader X s)) = X)"
proof -
  let ?a = "announceToScreenReader X s"
  have x: "liveRegion ?a = X" by (simp add: announceToScreenReader_eq)
  have c: "liveRegion (advance d ?a) = ''''" if "100 \<le> d"
  proof -
    have "\<exists>t\<in>set (timers ?a). action t = ClearLiveRegion \<and> due t \<le> now ?a + d"
      using that by (simp add: announceToScreenReader_eq)
    then show ?thesis unfolding advance_def by (simp add: runTimers_cleared)
  qed
  have k: "liveRegion (advance d ?a) = X"
    if "d < 100" "\<forall>t\<in>set (timers s). action t = ClearLiveRegion \<longrightarrow> now s + d < due t"
  proof -
    have "\<forall>t\<in>set (timers ?a). action t = ClearLiveRegion \<longrightarrow> now ?a + d < due t"
      using that by (auto simp: announceToScreenReader_eq)
    then have "liveRegion (advance d ?a) = liveRegion ?a"
      unfolding advance_def by (rule runTimers_kept)
    with x show ?thesis by simp
  qed
  from x c k show ?thesis by blast
qed

text \<open>An instance: the first-visit page, after 100 ms and after 99 ms.\<close>

theorem announce_sets_then_clears_witness:
  "liveRegion (announceToScreenReader ''Saved'' firstVisit) = ''Saved'' \<and>
   liveRegion (advance 100 (announceToScreenReader ''Saved'' firstVisit)) = '''' \<and>
   liveRegion (advance 99 (announceToScreenReader ''Saved'' firstVisit)) = ''Saved''"
proof -
  have n: "\<forall>t\<in>set (timers firstVisit). action t = ClearLiveRegion \<longrightarrow> now firstVisit + 99 < due t"
    by (simp add: firstVisit_def)
  from announce_sets_then_clears [of "''Saved''" firstVisit 100]
    announce_sets_then_clears [of "''Saved''" firstVisit 99] n
  show ?thesis by simp
qed

text \<open>
  Claim C6. A call of \<open>announceToScreenReader\<close> only appends its own clearing timer
  to the pending timers: it cancels none. So when \<open>B\<close> is announced \<open>d\<close> milliseconds
  after \<open>A\<close>, with \<open>0 < d < 100\<close>, the clearing timer of \<open>A\<close> is still pending after
  the second call, it fires 100 ms after the first call, and the live region is empty
  then, \<open>100 - d\<close> milliseconds after \<open>B\<close> was set and while the clearing timer of
  \<open>B\<close> is still pending.
\<close>

theorem overlapping_announce_cleared_early:
  assumes "0 < d" and "d < 100"
  shows "timers (announceToScreenReader B s') =
           timers s' @ [\<lparr>timerId = nextTimerId s', due = now s' + 100, action = ClearLiveRegion\<rparr>] \<and>
         (let s1 = announceToScreenReader A s;
              s2 = advance d s1;
              s3 = announceToScreenReader B s2;
              s4 = advance (100 - d) s3
          in \<lparr>timerId = nextTimerId s, due = now s + 100, action = ClearLiveRegion\<rparr> \<in> set (timers s3) \<and>
             liveRegion s3 = B \<and>
             now s4 = now s + 100 \<and>
             liveRegion s4 = '''' \<and>
             now s4 < now s3 + 100 \<and>
             \<lparr>timerId = nextTimerId s2, due = now s3 + 100, action = ClearLiveRegion\<rparr> \<in> set (timers s4))"
proof -
  let ?s1 = "announceToScreenReader A s"
  let ?s2 = "advance d ?s1"
  let ?s3 = "announceToScreenReader B ?s2"
  let ?s4 = "advance (100 - d) ?s3"
  let ?ta = "\<lparr>timerId = nextTimerId s, due = now s + 100, action = ClearLiveRegion\<rparr>"
  let ?tb = "\<lparr>timerId = nextTimerId ?s2, due = now ?s3 + 100, action = ClearLiveRegion\<rparr>"
  have n3: "now ?s3 = now s + d"
    by (simp add: announceToScreenReader_now advance_now)
  have n4: "now ?s4 = now s + 100"
    using assms by (simp add: advance_now n3)
  have "?ta \<in> set (timers ?s1)" by (simp add: announceToScreenReader_timers)
  then have "?ta \<in> set (timers ?s2)"
    using assms by (simp add: advance_timers announceToScreenReader_now)
  then have a3: "?ta \<in> set (timers ?s3)" by (simp add: announceToScreenReader_timers)
  have l3: "liveRegion ?s3 = B" by (rule announceToScreenReader_liveRegion)
  have "action ?ta = ClearLiveRegion \<and> due ?ta \<le> now ?s3 + (100 - d)"
    using assms by (simp add: n3)
  with a3 have "\<exists>t\<in>set (timers ?s3). action t = ClearLiveRegion \<and> due t \<le> now ?s3 + (100 - d)"
    by blast
  then have l4: "liveRegion ?s4 = ''''" unfolding advance_def by (simp add: runTimers_cleared)
  have "?tb \<in> set (timers ?s3)"
    by (simp add: announceToScreenReader_timers announceToScreenReader_now)
  moreover have "now ?s3 + (100 - d) < due ?tb" using assms by simp
  ultimately have b4: "?tb \<in> set (timers ?s4)"
    by (simp add: advance_timers [of "100 - d" ?s3])
  have t: "timers (announceToScreenReader B s') =
           timers s' @ [\<lparr>timerId = nextTimerId s', due = now s' + 100, action = ClearLiveRegion\<rparr>]"
    by (rule announceToScreenReader_timers)
  have lt: "now ?s4 < now ?s3 + 100" using assms by (simp add: n3 n4)
  from t a3 l3 n4 l4 lt b4 show ?thesis unfolding Let_def by blast
qed

text \<open>An instance: a second announcement 60 ms after the first.\<close>

theorem overlapping_announce_cleared_early_witness:
  "liveRegion (announceToScreenReader ''second'' (advance 60 (announceToScreenReader ''first'' quietPage)))
     = ''second'' \<and>
   liveRegion (advance 40
     (announceToScreenReader ''second'' (advance 60 (announceToScreenReader ''first'' quietPage)))) = '''' \<and>
   now (advance 40
     (announceToScreenReader ''second'' (advance 60 (announceToScreenReader ''first'' quietPage)))) = 1100 \<and>
   \<lparr>timerId = 8, due = 1160, action = ClearLiveRegion\<rparr> \<in> set (timers (advance 40
     (announceToScreenReader ''second'' (advance 60 (announceToScreenReader ''first'' quietPage)))))"
proof -
  have d: "(0::nat) < 60" "(60::nat) < 100" by simp_all
  have n: "now (announceToScreenReader ''second'' (advance 60 (announceToScreenReader ''first'' quietPage))) = 1060"
    by (simp add: announceToScreenReader_now advance_now quietPage_def)
  have i: "nextTimerId (advance 60 (announceToScreenReader ''first'' quietPage)) = 8"
    by (simp add: advance_def runTimers.simps announceToScreenReader_eq quietPage_def firstVisit_def fire_def)
  from overlapping_announce_cleared_early [OF d, of "''second''" quietPage "''first''" quietPage] n i
  show ?thesis by (simp add: Let_def quietPage_def)
qed

text \<open>
  Claim C7. After the images have been processed at load, every image that had no
  \<^verbatim>\<open>alt\<close> attribute has the description \<^verbatim>\<open>Decorative image\<close> and is otherwise as
  before, and every image that had an \<^verbatim>\<open>alt\<close> attribute, the empty one included, is
  unchanged.
\<close>

theorem backfill_missing_alt_only:
  "length (backfillAlt imgs) = length imgs \<and>
   (\<forall>i<length imgs.
      (getAttribute ''alt'' (imgs ! i) = None \<longrightarrow>
         backfillAlt imgs ! i = (imgs ! i)(''alt'' \<mapsto> ''Decorative image'') \<and>
         getAttribute ''alt'' (backfillAlt imgs ! i) = Some ''Decorative image'') \<and>
      (getAttribute ''alt'' (imgs ! i) \<noteq> None \<longrightarrow> backfillAlt imgs ! i = imgs ! i))"
  by (simp add: backfillAlt_def getAttribute_def)

text \<open>An instance: the three example images.\<close>

theorem backfill_missing_alt_only_witness:
  "length (backfillAlt pageImages) = 3 \<and>
   getAttribute ''alt'' (backfillAlt pageImages ! 0) = Some ''Decorative image'' \<and>
   getAttribute ''src'' (backfillAlt pageImages ! 0) = Some ''soup.jpg'' \<and>
   backfillAlt pageImages ! 1 = pageImages ! 1 \<and>
   getAttribute ''alt'' (backfillAlt pageImages ! 1) = Some '''' \<and>
   backfillAlt pageImages ! 2 = pageImages ! 2"
proof -
  have a: "getAttribute ''alt'' (pageImages ! 0) = None"
    "getAttribute ''alt'' (pageImages ! 1) \<noteq> None"
    "getAttribute ''alt'' (pageImages ! 2) \<noteq> None"
    "getAttribute ''alt'' (pageImages ! 1) = Some ''''"
    "pageImages ! 0 = [''src'' \<mapsto> ''soup.jpg'']"
    "length pageImages = 3"
    by (simp_all add: pageImages_def getAttribute_def)
  have i: "(0::nat) < 3" "(1::nat) < 3" "(2::nat) < 3" by simp_all
  from backfill_missing_alt_only [of pageImages] a i
  have "backfillAlt pageImages ! 0 = (pageImages ! 0)(''alt'' \<mapsto> ''Decorative image'')"
    and "backfillAlt pageImages ! 1 = pageImages ! 1"
    and "backfillAlt pageImages ! 2 = pageImages ! 2"
    and "length (backfillAlt pageImages) = 3"
    by simp_all
  with a show ?thesis by (simp add: getAttribute_def)
qed

text \<open>
  Claim C8. In a burst of resize events in which each event follows the one before it
  by less than 250 ms, the resize handler is not called during the burst nor in the 250
  ms after its last event, and it is called exactly once, 250 ms after the last event.
  The hypothesis \<open>debounceInv\<close> holds when no timer is pending and is kept by every
  event (\<open>no_timers_debounceInv\<close>, \<open>run_debounceInv\<close>), so it holds in every state a
  loaded page can reach. Time is the clock of the event loop.
\<close>

theorem resize_burst_fires_once:
  assumes "debounceInv s" and "\<forall>g\<in>set gs. g < 250"
  shows "now (run (burst gs) s) = now s + sum_list gs \<and>
         resizeCalls (run (burst gs) s) = resizeCalls s \<and>
         (d < 250 \<longrightarrow> resizeCalls (advance d (run (burst gs) s)) = resizeCalls s) \<and>
         (250 \<le> d \<longrightarrow>
            resizeCalls (advance d (run (burst gs) s)) = resizeCalls s @ [now s + sum_list gs + 250])"
proof -
  let ?e = "run (burst gs) s"
  from burst_pending [OF assms] obtain i where
    n: "now ?e = now s + sum_list gs" and r: "resizeCalls ?e = resizeCalls s" and
    p: "pendingResize ?e = [\<lparr>timerId = i, due = now s + sum_list gs + 250, action = CallResizeHandler\<rparr>]"
    by blast
  have early: "resizeCalls (advance d ?e) = resizeCalls s" if "d < 250"
  proof -
    have "\<forall>t\<in>set (pendingResize ?e). now ?e + d < due t" using that by (simp add: p n)
    then have "resizeCalls (advance d ?e) = resizeCalls ?e" by (rule advance_resize_none)
    with r show ?thesis by simp
  qed
  have late: "resizeCalls (advance d ?e) = resizeCalls s @ [now s + sum_list gs + 250]" if "250 \<le> d"
  proof -
    let ?r = "\<lparr>timerId = i, due = now s + sum_list gs + 250, action = CallResizeHandler\<rparr>"
    have "resizeCalls (runTimers (now ?e + d) ?e) = resizeCalls ?e @ [due ?r]"
      using p by (rule runTimers_resize_one) (use that n in simp_all)
    with r show ?thesis by (simp add: advance_def)
  qed
  from n r early late show ?thesis by blast
qed

text \<open>An instance: ten resize events 10 ms apart.\<close>

theorem resize_burst_fires_once_witness:
  "now (run (burst [10, 10, 10, 10, 10, 10, 10, 10, 10]) quietPage) = 1090 \<and>
   resizeCalls (run (burst [10, 10, 10, 10, 10, 10, 10, 10, 10]) quietPage) = [] \<and>
   resizeCalls (advance 249 (run (burst [10, 10, 10, 10, 10, 10, 10, 10, 10]) quietPage)) = [] \<and>
   resizeCalls (advance 250 (run (burst [10, 10, 10, 10, 10, 10, 10, 10, 10]) quietPage)) = [1340]"
proof -
  have i: "debounceInv quietPage"
    by (simp add: debounceInv_def quietPage_def firstVisit_def)
  have g: "\<forall>g\<in>set [10, 10, 10, 10, 10, 10, 10, 10, 10 :: nat]. g < 250" by simp
  have q: "now quietPage = 1000" "resizeCalls quietPage = []"
    by (simp_all add: quietPage_def firstVisit_def)
  from resize_burst_fires_once [OF i g, of 249] resize_burst_fires_once [OF i g, of 250] q
  show ?thesis by simp
qed

text \<open>
  Claim C9. In every state, \<open>toggleHighContrast\<close> leaves the large-text preference as
  it is (the class \<^verbatim>\<open>large-text\<close>, the font-size control with all its attributes, the
  key \<^verbatim>\<open>largeText\<close>), and \<open>toggleFontSize\<close> leaves the high-contrast preference as it
  is.
\<close>

theorem toggles_share_no_state:
  "markerPresent ''large-text'' (pageOf (toggleHighContrast s)) = markerPresent ''large-text'' s \<and>
   getElementById ''font-size'' (pageOf (toggleHighContrast s)) = getElementById ''font-size'' s \<and>
   ariaPressed ''font-size'' (pageOf (toggleHighContrast s)) = ariaPressed ''font-size'' s \<and>
   getItem ''largeText'' (pageOf (toggleHighContrast s)) = getItem ''largeText'' s \<and>
   markerPresent ''high-contrast'' (pageOf (toggleFontSize s)) = markerPresent ''high-contrast'' s \<and>
   getElementById ''high-contrast'' (pageOf (toggleFontSize s)) = getElementById ''high-contrast'' s \<and>
   ariaPressed ''high-contrast'' (pageOf (toggleFontSize s)) = ariaPressed ''high-contrast'' s \<and>
   getItem ''highContrast'' (pageOf (toggleFontSize s)) = getItem ''highContrast'' s"
  using toggleHighContrast_frame [of "''large-text''" s "''font-size''" "''largeText''"]
    toggleFontSize_frame [of "''high-contrast''" s "''high-contrast''" "''highContrast''"]
  by (simp add: ariaPressed_def)

text \<open>An instance: the first-visit page, large text toggled first.\<close>

theorem toggles_share_no_state_witness:
  "markerPresent ''large-text'' (pageOf (toggleHighContrast (pageOf (toggleFontSize firstVisit)))) \<and>
   ariaPressed ''font-size'' (pageOf (toggleHighContrast (pageOf (toggleFontSize firstVisit)))) = Some ''true'' \<and>
   getItem ''largeText'' (pageOf (toggleHighContrast (pageOf (toggleFontSize firstVisit)))) = Some ''true'' \<and>
   \<not> markerPresent ''high-contrast'' (pageOf (toggleFontSize firstVisit)) \<and>
   ariaPressed ''high-contrast'' (pageOf (toggleFontSize firstVisit)) = Some ''false'' \<and>
   getItem ''highContrast'' (pageOf (toggleFontSize firstVisit)) = None"
proof -
  have b: "getElementById ''font-size'' firstVisit = Some [''aria-pressed'' \<mapsto> ''false'']"
    by (simp add: getElementById_def firstVisit_def)
  have off: "getAttribute ''aria-pressed'' [''aria-pressed'' \<mapsto> ''false''] \<noteq> Some ''true''"
    by (simp add: getAttribute_def)
  have fs: "markerPresent ''large-text'' (pageOf (toggleFontSize firstVisit)) \<and>
      ariaPressed ''font-size'' (pageOf (toggleFontSize firstVisit)) = Some ''true'' \<and>
      getItem ''largeText'' (pageOf (toggleFontSize firstVisit)) = Some ''true''"
    by (simp add: toggleFontSize_on [OF b off] markerPresent_def ariaPressed_def getItem_def
        getElementById_def getAttribute_def classList_add_def)
  have fv: "\<not> markerPresent ''high-contrast'' firstVisit \<and>
      ariaPressed ''high-contrast'' firstVisit = Some ''false'' \<and>
      getItem ''highContrast'' firstVisit = None"
    by (simp add: markerPresent_def ariaPressed_def getItem_def getElementById_def getAttribute_def
        firstVisit_def)
  from toggles_share_no_state [of "pageOf (toggleFontSize firstVisit)"]
    toggles_share_no_state [of firstVisit] fs fv
  show ?thesis by simp
qed

text \<open>
  Claim C10. A toggle that turns a preference off stores the string \<^verbatim>\<open>"false"\<close> under
  its key. No event removes a key, so a key that is present stays present along every
  sequence of events, and restoration does not change the store. Restoration of a stored
  \<^verbatim>\<open>"false"\<close> leaves a preference off that the markup leaves off.
\<close>

theorem off_transition_stores_false:
  "(indicatorPressed ''high-contrast'' s \<longrightarrow>
      isDone (toggleHighContrast s) \<and>
      getItem ''highContrast'' (pageOf (toggleHighContrast s)) = Some ''false'') \<and>
   (indicatorPressed ''font-size'' s \<longrightarrow>
      isDone (toggleFontSize s) \<and>
      getItem ''largeText'' (pageOf (toggleFontSize s)) = Some ''false'') \<and>
   (getItem k s \<noteq> None \<longrightarrow> getItem k (run es s) \<noteq> None) \<and>
   localStorage (pageOf (initAccessibilityFeatures s)) = localStorage s \<and>
   (getItem ''highContrast'' s = Some ''false'' \<and> markupOff ''high-contrast'' ''high-contrast'' s \<longrightarrow>
      \<not> markerPresent ''high-contrast'' (pageOf (initAccessibilityFeatures s)) \<and>
      \<not> indicatorPressed ''high-contrast'' (pageOf (initAccessibilityFeatures s))) \<and>
   (getItem ''largeText'' s = Some ''false'' \<and> markupOff ''large-text'' ''font-size'' s \<longrightarrow>
      \<not> markerPresent ''large-text'' (pageOf (initAccessibilityFeatures s)) \<and>
      \<not> indicatorPressed ''font-size'' (pageOf (initAccessibilityFeatures s)))"
proof -
  have keep: "getItem k (run es s) \<noteq> None" if "getItem k s \<noteq> None"
  proof -
    from that have "k \<in> dom (localStorage s)" by (simp add: getItem_def domIff)
    with run_keeps_keys [of s es] have "k \<in> dom (localStorage (run es s))" by blast
    then show ?thesis by (simp add: getItem_def domIff)
  qed
  have hc: "\<not> markerPresent ''high-contrast'' (pageOf (initAccessibilityFeatures s)) \<and>
      \<not> indicatorPressed ''high-contrast'' (pageOf (initAccessibilityFeatures s))"
    if "getItem ''highContrast'' s = Some ''false''" "markupOff ''high-contrast'' ''high-contrast'' s"
    using that initAccessibilityFeatures_not_stored [of s]
    by (simp add: markupOff_def indicatorPressed_def ariaPressed_def)
  have lt: "\<not> markerPresent ''large-text'' (pageOf (initAccessibilityFeatures s)) \<and>
      \<not> indicatorPressed ''font-size'' (pageOf (initAccessibilityFeatures s))"
    if "getItem ''largeText'' s = Some ''false''" "markupOff ''large-text'' ''font-size'' s"
    using that initAccessibilityFeatures_not_stored [of s]
    by (simp add: markupOff_def indicatorPressed_def ariaPressed_def)
  from toggleHighContrast_pressed [of s] toggleFontSize_pressed [of s] keep hc lt
    initAccessibilityFeatures_store [of s]
  show ?thesis by blast
qed

text \<open>An instance: the page with high contrast on, and a page load with \<^verbatim>\<open>"false"\<close> stored.\<close>

theorem off_transition_stores_false_witness:
  "getItem ''highContrast'' (pageOf (toggleHighContrast contrastOn)) = Some ''false'' \<and>
   getItem ''highContrast''
     (run [ClickFontSize, Elapse 500, Resize, ClickHighContrast] (pageOf (toggleHighContrast contrastOn)))
     \<noteq> None \<and>
   \<not> markerPresent ''high-contrast''
     (pageOf (initAccessibilityFeatures (storedPage [''highContrast'' \<mapsto> ''false'']))) \<and>
   \<not> indicatorPressed ''high-contrast''
     (pageOf (initAccessibilityFeatures (storedPage [''highContrast'' \<mapsto> ''false''])))"
proof -
  have p: "indicatorPressed ''high-contrast'' contrastOn"
    by (simp add: indicatorPressed_def ariaPressed_def getElementById_def getAttribute_def
        contrastOn_def)
  have f: "getItem ''highContrast'' (pageOf (toggleHighContrast contrastOn)) = Some ''false''"
    using off_transition_stores_false [of contrastOn] p by blast
  then have n: "getItem ''highContrast'' (pageOf (toggleHighContrast contrastOn)) \<noteq> None"
    by simp
  have g: "getItem ''highContrast'' (storedPage [''highContrast'' \<mapsto> ''false'']) = Some ''false''"
    by (simp add: getItem_def storedPage_def)
  have m: "markupOff ''high-contrast'' ''high-contrast'' (storedPage [''highContrast'' \<mapsto> ''false''])"
    by (simp add: markupOff_def markerPresent_def indicatorPressed_def ariaPressed_def
        getElementById_def getAttribute_def storedPage_def firstVisit_def)
  from f n g m
    off_transition_stores_false [of "pageOf (toggleHighContrast contrastOn)" "''highContrast''"
      "[ClickFontSize, Elapse 500, Resize, ClickHighContrast]"]
    off_transition_stores_false [of "storedPage [''highContrast'' \<mapsto> ''false'']"]
  show ?thesis by blast
qed

end
